theory Spec2Isabelle
  imports Complex_Main
begin

section \<open>Texts and character classes\<close>

text \<open>
  A Python \<open>str\<close> is modelled as a \<open>string\<close>: a list of 8-bit characters read as the code
  points 0..255. The character classes below are those of Python's \<open>re\<close> module and of
  \<open>str.strip\<close>, \<open>str.lower\<close> on that range: \<open>\d\<close> is the ten ASCII digits, \<open>\s\<close> is the
  white space of \<open>str.isspace\<close> (TAB..CR, FS..US, SPACE, NEL, NBSP).
\<close>

definition is_digit :: "char \<Rightarrow> bool" where
  "is_digit c = (c \<in> set ''0123456789'')"

definition is_space :: "char \<Rightarrow> bool" where
  "is_space c = (c \<in> set [CHR 0x09, CHR 0x0A, CHR 0x0B, CHR 0x0C, CHR 0x0D,
                            CHR 0x1C, CHR 0x1D, CHR 0x1E, CHR 0x1F, CHR 0x20,
                            CHR 0x85, CHR 0xA0])"

text \<open>The class \<open>[\d.]\<close> of the number patterns, and the class \<open>[<>=]\<close> of the operators.\<close>

definition numch :: "char \<Rightarrow> bool" where
  "numch c = (is_digit c \<or> c = CHR ''.'')"

definition opch :: "char \<Rightarrow> bool" where
  "opch c = (c \<in> set ''<>='')"

text \<open>\<open>s.strip()\<close>: white space removed at both ends.\<close>

definition strip :: "string \<Rightarrow> string" where
  "strip s = rev (dropWhile is_space (rev (dropWhile is_space s)))"

section \<open>Decimal numbers\<close>

text \<open>
  \<open>float(t)\<close> is only ever applied to a text matched by \<open>[\d.]+\<close>, optionally followed by
  an exponent \<open>[eE][+-]?\d+\<close>. On such a text Python raises \<open>ValueError\<close> unless the
  mantissa has at least one digit and at most one point. The model returns the decimal
  value the text denotes, as a rational; Python rounds that value to the nearest double
  (and the values of the claims, such as 41, 135, 145 and 7, are doubles exactly).
  \<open>None\<close> is the \<open>ValueError\<close>.
\<close>

definition digit_val :: "char \<Rightarrow> nat" where
  "digit_val c = of_char c - 48"

definition digits_val :: "string \<Rightarrow> nat" where
  "digits_val ds = foldl (\<lambda>a c. 10 * a + digit_val c) 0 ds"

definition mantissa :: "string \<Rightarrow> rat option" where
  "mantissa m =
     (let ip = takeWhile is_digit m; r = dropWhile is_digit m in
      case r of
        [] \<Rightarrow> if ip = [] then None else Some (of_nat (digits_val ip))
      | c # fp \<Rightarrow>
          if c = CHR ''.'' \<and> list_all is_digit fp \<and> (ip \<noteq> [] \<or> fp \<noteq> [])
          then Some (of_nat (digits_val (ip @ fp)) / 10 ^ length fp)
          else None)"

definition is_e :: "char \<Rightarrow> bool" where
  "is_e c = (c = CHR ''e'' \<or> c = CHR ''E'')"

definition py_float :: "string \<Rightarrow> rat option" where
  "py_float t =
     (let m = takeWhile (\<lambda>c. \<not> is_e c) t; r = dropWhile (\<lambda>c. \<not> is_e c) t in
      case mantissa m of
        None \<Rightarrow> None
      | Some x \<Rightarrow>
          (case r of
             [] \<Rightarrow> Some x
           | _ # ex \<Rightarrow>
               (case ex of
                  [] \<Rightarrow> None
                | s # ds \<Rightarrow>
                    if s = CHR ''-'' then
                      (if ds \<noteq> [] \<and> list_all is_digit ds
                       then Some (x / 10 ^ digits_val ds) else None)
                    else if s = CHR ''+'' then
                      (if ds \<noteq> [] \<and> list_all is_digit ds
                       then Some (x * 10 ^ digits_val ds) else None)
                    else
                      (if list_all is_digit ex
                       then Some (x * 10 ^ digits_val ex) else None))))"

section \<open>Normal-range parsing\<close>

text \<open>
  \<open>re.search(r'([\d.]+)\s*-\s*([\d.]+)', s)\<close>. The three classes \<open>[\d.]\<close>, \<open>\s\<close> and
  \<open>-\<close> are pairwise disjoint, so backtracking never finds a match that the greedy scan
  misses: at one start position the pattern matches exactly when the longest run of
  \<open>[\d.]\<close> is non-empty and is followed by white space, a hyphen, white space and another
  non-empty run. \<open>range_search\<close> tries the start positions from the left, as \<open>re.search\<close>
  does, and returns the two groups.
\<close>

definition match_range_at :: "string \<Rightarrow> (string \<times> string) option" where
  "match_range_at s =
     (let a = takeWhile numch s; r1 = dropWhile is_space (dropWhile numch s) in
      if a = [] then None
      else case r1 of
        [] \<Rightarrow> None
      | c # r2 \<Rightarrow>
          if c \<noteq> CHR ''-'' then None
          else let b = takeWhile numch (dropWhile is_space r2) in
               if b = [] then None else Some (a, b))"

fun range_search :: "string \<Rightarrow> (string \<times> string) option" where
  "range_search [] = None"
| "range_search (c # cs) =
     (case match_range_at (c # cs) of
        Some g \<Rightarrow> Some g
      | None \<Rightarrow> range_search cs)"

text \<open>
  \<open>re.search(r'([<>=]+)?\s*([\d.]+)', s)\<close>. At one start position the optional group takes
  the longest run of operator characters (a shorter run would leave an operator character
  where \<open>\s*([\d.]+)\<close> has to match). The first component is group 1, with the empty text
  for a group that did not take part, as the source's \<open>operator\<close> has it.
\<close>

definition match_single_at :: "string \<Rightarrow> (string \<times> string) option" where
  "match_single_at s =
     (let oper = takeWhile opch s;
          v = takeWhile numch (dropWhile is_space (dropWhile opch s))
      in if v = [] then None else Some (oper, v))"

fun single_search :: "string \<Rightarrow> (string \<times> string) option" where
  "single_search [] = None"
| "single_search (c # cs) =
     (case match_single_at (c # cs) of
        Some g \<Rightarrow> Some g
      | None \<Rightarrow> single_search cs)"

text \<open>
  The two \<open>try\<close> blocks of \<open>parse_normal_range\<close>: each gives its pair, or \<open>None\<close> when its
  pattern does not match or \<open>float\<close> raises \<open>ValueError\<close> (the source passes on to the next
  block).
\<close>

definition range_part :: "string \<Rightarrow> (rat option \<times> rat option) option" where
  "range_part s =
     (case range_search s of
        None \<Rightarrow> None
      | Some (a, b) \<Rightarrow>
          (case py_float a of
             None \<Rightarrow> None
           | Some min_val \<Rightarrow>
               (case py_float b of
                  None \<Rightarrow> None
                | Some max_val \<Rightarrow> Some (Some min_val, Some max_val))))"

definition single_part :: "string \<Rightarrow> (rat option \<times> rat option) option" where
  "single_part s =
     (case single_search s of
        None \<Rightarrow> None
      | Some (oper, v) \<Rightarrow>
          (case py_float v of
             None \<Rightarrow> None
           | Some val \<Rightarrow>
               if oper = ''<'' then Some (None, Some val)
               else if oper = ''>'' then Some (Some val, None)
               else Some (Some val, Some val)))"

definition parse_normal_range :: "string \<Rightarrow> rat option \<times> rat option" where
  "parse_normal_range s =
     (if s = [] then (None, None)
      else case range_part s of
        Some r \<Rightarrow> r
      | None \<Rightarrow>
          (case single_part s of
             Some r \<Rightarrow> r
           | None \<Rightarrow> (None, None)))"

text \<open>
  The shapes of range texts that the specification speaks of: a text free of digits and
  points, a non-empty run of digits and points, a run of white space, a text that does not
  end in an operator character, and a text free of operator characters.
\<close>

definition no_number :: "string \<Rightarrow> bool" where
  "no_number s = list_all (\<lambda>c. \<not> numch c) s"

definition number_text :: "string \<Rightarrow> bool" where
  "number_text v = (v \<noteq> [] \<and> list_all numch v)"

definition spaces :: "string \<Rightarrow> bool" where
  "spaces ws = list_all is_space ws"

definition no_operator_end :: "string \<Rightarrow> bool" where
  "no_operator_end pre = (pre = [] \<or> \<not> opch (last pre))"

definition no_operator :: "string \<Rightarrow> bool" where
  "no_operator pre = list_all (\<lambda>c. \<not> opch c) pre"

section \<open>Data model\<close>

text \<open>
  \<open>models/state.py\<close>. A \<open>float\<close> field holds the decimal value it was parsed from (see
  above); a time stamp is a reading of the clock. A Python \<open>dict\<close> keeps its keys in
  insertion order and the classifier depends on that order, so the biomarker mapping is
  an association list; \<open>dict_set\<close> is the assignment \<open>d[k] = v\<close>.
\<close>

record biomarker =
  name :: string
  "value" :: rat
  unit :: string
  normal_range_min :: "rat option"
  normal_range_max :: "rat option"
  status :: string
  "interpretation" :: "string option"

record specialist_result =
  sr_name :: string
  specialty :: string
  location :: string
  distance :: "string option"
  rating :: "rat option"
  url :: "string option"

type_synonym timestamp = nat

type_synonym biomarkers = "(string \<times> biomarker) list"

record session =
  session_id :: string
  raw_text :: string
  redacted_text :: string
  lab_interpreted :: bool
  biomarkers :: biomarkers
  interpretation_summary :: "string option"
  specialist_needed :: bool
  specialist_condition :: "string option"
  specialist_type :: "string option"
  patient_zip :: "string option"
  specialist_search_approved :: bool
  specialist_results :: "specialist_result list"
  safety_approved :: bool
  medical_disclaimer :: "string option"
  fhir_observation_id :: "string option"
  fhir_patient_id :: "string option"
  created_at :: timestamp
  updated_at :: timestamp

fun dict_set :: "('k \<times> 'v) list \<Rightarrow> 'k \<Rightarrow> 'v \<Rightarrow> ('k \<times> 'v) list" where
  "dict_set [] k v = [(k, v)]"
| "dict_set ((k', v') # d) k v = (if k' = k then (k, v) # d else (k', v') # dict_set d k v)"

text \<open>
  The exceptions the modelled code raises or receives. All of them are subclasses of
  Python's \<open>Exception\<close>. \<open>JSONDecodeError msg pos\<close> carries the message and the position
  of \<open>json.JSONDecodeError\<close>.
\<close>

datatype exn =
    JSONDecodeError string nat
  | AttributeError
  | ValidationError
  | ValueError string
  | OtherError string

section \<open>Referral classifier\<close>

text \<open>
  \<open>str.lower\<close> on the code points 0..255: the ASCII capitals and the Latin-1 capitals
  (all of \<open>0xC0..0xDE\<close> but the multiplication sign) move up by 32.
\<close>

definition upper_chars :: string where
  "upper_chars = ''ABCDEFGHIJKLMNOPQRSTUVWXYZ'' @
     [CHR 0xC0, CHR 0xC1, CHR 0xC2, CHR 0xC3, CHR 0xC4, CHR 0xC5, CHR 0xC6, CHR 0xC7,
      CHR 0xC8, CHR 0xC9, CHR 0xCA, CHR 0xCB, CHR 0xCC, CHR 0xCD, CHR 0xCE, CHR 0xCF,
      CHR 0xD0, CHR 0xD1, CHR 0xD2, CHR 0xD3, CHR 0xD4, CHR 0xD5, CHR 0xD6,
      CHR 0xD8, CHR 0xD9, CHR 0xDA, CHR 0xDB, CHR 0xDC, CHR 0xDD, CHR 0xDE]"

definition lower_chars :: string where
  "lower_chars = ''abcdefghijklmnopqrstuvwxyz'' @
     [CHR 0xE0, CHR 0xE1, CHR 0xE2, CHR 0xE3, CHR 0xE4, CHR 0xE5, CHR 0xE6, CHR 0xE7,
      CHR 0xE8, CHR 0xE9, CHR 0xEA, CHR 0xEB, CHR 0xEC, CHR 0xED, CHR 0xEE, CHR 0xEF,
      CHR 0xF0, CHR 0xF1, CHR 0xF2, CHR 0xF3, CHR 0xF4, CHR 0xF5, CHR 0xF6,
      CHR 0xF8, CHR 0xF9, CHR 0xFA, CHR 0xFB, CHR 0xFC, CHR 0xFD, CHR 0xFE]"

definition lower_char :: "char \<Rightarrow> char" where
  "lower_char c = (case map_of (zip upper_chars lower_chars) c of Some d \<Rightarrow> d | None \<Rightarrow> c)"

definition lower :: "string \<Rightarrow> string" where
  "lower s = map lower_char s"

text \<open>\<open>key in text\<close>: the key occurs in the text as a contiguous piece.\<close>

fun starts_with :: "string \<Rightarrow> string \<Rightarrow> bool" where
  "starts_with [] t = True"
| "starts_with (k # ks) [] = False"
| "starts_with (k # ks) (c # cs) = (k = c \<and> starts_with ks cs)"

fun contains :: "string \<Rightarrow> string \<Rightarrow> bool" where
  "contains key [] = (key = [])"
| "contains key (c # cs) = (starts_with key (c # cs) \<or> contains key cs)"

text \<open>\<open>specialist_map\<close>, a \<open>dict\<close> literal: its items in the order written.\<close>

definition specialist_map :: "(string \<times> string \<times> string) list" where
  "specialist_map =
     [(''glucose'', ''Endocrinologist'', ''Diabetes/Glucose Management''),
      (''cholesterol'', ''Cardiologist'', ''High Cholesterol''),
      (''creatinine'', ''Nephrologist'', ''Kidney Function''),
      (''hemoglobin'', ''Hematologist'', ''Blood Disorders''),
      (''tsh'', ''Endocrinologist'', ''Thyroid Function''),
      (''alt'', ''Hepatologist'', ''Liver Function''),
      (''ast'', ''Hepatologist'', ''Liver Function'')]"

definition default_specialist :: "string \<times> string" where
  "default_specialist = (''Primary Care Physician'', ''Abnormal Lab Values'')"

text \<open>\<open>biomarker.status in ["high", "low", "critical"]\<close>.\<close>

definition abnormal :: "biomarker \<Rightarrow> bool" where
  "abnormal b = (status b \<in> set [''high'', ''low'', ''critical''])"

text \<open>The inner loop over the items of \<open>specialist_map\<close>: the pair of the first key found in the text.\<close>

fun first_keyword :: "(string \<times> string \<times> string) list \<Rightarrow> string \<Rightarrow> (string \<times> string) option" where
  "first_keyword [] t = None"
| "first_keyword ((key, pair) # rest) t =
     (if contains key t then Some pair else first_keyword rest t)"

text \<open>
  \<open>_determine_specialist_type\<close>. The text tested is \<open>biomarker_name\<close>, the key under which
  the biomarker is stored in the mapping.
\<close>

fun determine_specialist_type :: "biomarkers \<Rightarrow> string \<times> string" where
  "determine_specialist_type [] = default_specialist"
| "determine_specialist_type ((biomarker_name, b) # rest) =
     (if abnormal b then
        (case first_keyword specialist_map (lower biomarker_name) of
           Some pair \<Rightarrow> pair
         | None \<Rightarrow> determine_specialist_type rest)
      else determine_specialist_type rest)"

text \<open>
  The classifier as the specification words it: the first abnormal biomarker whose
  lower-cased name contains a keyword decides, by the first keyword of the table it
  contains; without such a biomarker the default pair is returned.
\<close>

definition matches_keyword :: "string \<Rightarrow> bool" where
  "matches_keyword nm = (\<exists>key \<in> set (map fst specialist_map). contains key (lower nm))"

definition referral_spec :: "biomarkers \<Rightarrow> string \<times> string" where
  "referral_spec bs =
     (case find (\<lambda>(nm, b). abnormal b \<and> matches_keyword nm) bs of
        None \<Rightarrow> default_specialist
      | Some (nm, b) \<Rightarrow>
          (case find (\<lambda>(key, pair). contains key (lower nm)) specialist_map of
             Some (key, pair) \<Rightarrow> pair
           | None \<Rightarrow> default_specialist))"

text \<open>A reading with a given name and status, for the examples.\<close>

definition reading :: "string \<Rightarrow> string \<Rightarrow> biomarker" where
  "reading nm st = \<lparr>name = nm, value = 1, unit = [], normal_range_min = None,
                    normal_range_max = None, status = st, interpretation = None\<rparr>"

section \<open>Biomarker extractor\<close>

subsection \<open>Structured values and the decoder\<close>

text \<open>
  What \<open>json.loads\<close> returns: \<open>None\<close>, a \<open>bool\<close>, a number, a \<open>str\<close>, a \<open>list\<close> or a
  \<open>dict\<close> (its items in order, the keys distinct). \<open>json.loads\<close> itself is a library
  function and a parameter of the model: a decoder maps a text to a value or to the
  exception raised.
\<close>

datatype json =
    JNull
  | JBool bool
  | JNumber rat
  | JString string
  | JArray "json list"
  | JObject "(string \<times> json) list"

type_synonym decoder = "string \<Rightarrow> exn + json"

text \<open>\<open>d.get(k, default)\<close> and the nested \<open>d.get(k1, d.get(k2, default))\<close>.\<close>

definition dict_get :: "(string \<times> json) list \<Rightarrow> string \<Rightarrow> json \<Rightarrow> json" where
  "dict_get d k dflt = (case map_of d k of Some v \<Rightarrow> v | None \<Rightarrow> dflt)"

definition get2 :: "(string \<times> json) list \<Rightarrow> string \<Rightarrow> string \<Rightarrow> json \<Rightarrow> json" where
  "get2 d k1 k2 dflt = dict_get d k1 (dict_get d k2 dflt)"

subsection \<open>Value and unit\<close>

text \<open>
  \<open>re.search(r'([\d.]+(?:[eE][+-]?\d+)?)', t)\<close>: the first run of \<open>[\d.]\<close>, with an
  exponent when one follows. The result is group 1 and the text after the match.
\<close>

definition number_search :: "string \<Rightarrow> (string \<times> string) option" where
  "number_search t =
     (let r = dropWhile (\<lambda>c. \<not> numch c) t in
      if r = [] then None
      else
        let m = takeWhile numch r; a = dropWhile numch r in
        case a of
          [] \<Rightarrow> Some (m, a)
        | e # a1 \<Rightarrow>
            if \<not> is_e e then Some (m, a)
            else
              let sg = (case a1 of
                          [] \<Rightarrow> []
                        | s # _ \<Rightarrow> if s = CHR ''+'' \<or> s = CHR ''-'' then [s] else []);
                  a2 = drop (length sg) a1;
                  ds = takeWhile is_digit a2
              in if ds = [] then Some (m, a)
                 else Some (m @ e # sg @ ds, dropWhile is_digit a2))"

text \<open>\<open>extract_value_and_unit\<close>; its argument is whatever the entry holds under \<open>Value\<close>.\<close>

definition extract_value_and_unit :: "json \<Rightarrow> rat \<times> string" where
  "extract_value_and_unit value_str =
     (case value_str of
        JString s \<Rightarrow>
          if s = [] then (0, [])
          else
            let t = dropWhile opch (strip s) in
            (case number_search t of
               None \<Rightarrow> (0, t)
             | Some (g, after) \<Rightarrow>
                 (case py_float g of
                    Some numeric_value \<Rightarrow> (numeric_value, strip after)
                  | None \<Rightarrow> (0, t)))
      | _ \<Rightarrow> (0, []))"

text \<open>\<open>parse_normal_range\<close> on the value held under \<open>Normal_range\<close>, with its type check.\<close>

definition parse_normal_range_json :: "json \<Rightarrow> rat option \<times> rat option" where
  "parse_normal_range_json v =
     (case v of JString s \<Rightarrow> parse_normal_range s | _ \<Rightarrow> (None, None))"

subsection \<open>One entry\<close>

text \<open>
  The body of the loop for an entry whose value is a \<open>dict\<close>. The arguments of
  \<open>Biomarker(...)\<close> are evaluated first, so \<open>.lower()\<close> on a status that is not a \<open>str\<close>
  raises \<open>AttributeError\<close> before any validation. The validation (pydantic 2) then
  rejects a \<open>name\<close> or a \<open>unit\<close> that is not a \<open>str\<close>, and an \<open>interpretation\<close> that is
  neither a \<open>str\<close> nor \<open>None\<close>.
\<close>

definition opt_str :: "json \<Rightarrow> string option option" where
  "opt_str v = (case v of JNull \<Rightarrow> Some None | JString s \<Rightarrow> Some (Some s) | _ \<Rightarrow> None)"

definition make_biomarker :: "string \<Rightarrow> (string \<times> json) list \<Rightarrow> exn + biomarker" where
  "make_biomarker key v =
     (let vu = extract_value_and_unit (get2 v ''Value'' ''value'' (JString []));
          unit_j = (if snd vu = [] then dict_get v ''unit'' (JString []) else JString (snd vu));
          rng = parse_normal_range_json (get2 v ''Normal_range'' ''normal_range'' (JString []))
      in case get2 v ''Status'' ''status'' (JString ''normal'') of
           JString st \<Rightarrow>
             (case get2 v ''Name'' ''name'' (JString key) of
                JString nm \<Rightarrow>
                  (case unit_j of
                     JString un \<Rightarrow>
                       (case opt_str (get2 v ''Interpretation'' ''interpretation'' JNull) of
                          Some interp \<Rightarrow>
                            Inr \<lparr>name = nm, value = fst vu, unit = un,
                                 normal_range_min = fst rng, normal_range_max = snd rng,
                                 status = lower st, interpretation = interp\<rparr>
                        | None \<Rightarrow> Inl ValidationError)
                   | _ \<Rightarrow> Inl ValidationError)
              | _ \<Rightarrow> Inl ValidationError)
         | _ \<Rightarrow> Inl AttributeError)"

text \<open>
  \<open>for key, value in data.items()\<close>: the mapping built so far is threaded through; an
  exception ends the loop and leaves the mapping as it is.
\<close>

fun build_entries :: "(string \<times> json) list \<Rightarrow> biomarkers \<Rightarrow> exn option \<times> biomarkers" where
  "build_entries [] acc = (None, acc)"
| "build_entries ((key, JObject v) # rest) acc =
     (case make_biomarker key v of
        Inl e \<Rightarrow> (Some e, acc)
      | Inr b \<Rightarrow> build_entries rest (dict_set acc key b))"
| "build_entries ((key, _) # rest) acc = build_entries rest acc"

text \<open>
  For the statement of what a partial result holds: the biomarker that an entry converts
  to, if its value is a \<open>dict\<close> and the conversion does not raise, and the mapping that
  results from storing the converted entries of a list in order.
\<close>

definition converted :: "string \<times> json \<Rightarrow> (string \<times> biomarker) option" where
  "converted entry =
     (case entry of
        (key, JObject v) \<Rightarrow>
          (case make_biomarker key v of Inr b \<Rightarrow> Some (key, b) | Inl e \<Rightarrow> None)
      | _ \<Rightarrow> None)"

definition built :: "(string \<times> json) list \<Rightarrow> biomarkers" where
  "built items = foldl (\<lambda>acc (key, b). dict_set acc key b) [] (List.map_filter converted items)"

text \<open>An entry converts or is skipped: it is not a \<open>dict\<close> whose conversion raises.\<close>

definition harmless :: "string \<times> json \<Rightarrow> bool" where
  "harmless entry =
     (case entry of
        (key, JObject v) \<Rightarrow> (case make_biomarker key v of Inr b \<Rightarrow> True | Inl e \<Rightarrow> False)
      | _ \<Rightarrow> True)"

subsection \<open>Locating the payload\<close>

text \<open>
  \<open>re.search(r'```(?:json)?\s*', llm_response, re.IGNORECASE)\<close>: the text after the first
  fence, after an optional \<open>json\<close> in any case and after white space; \<open>None\<close> without a fence.
\<close>

fun after_fence :: "string \<Rightarrow> string option" where
  "after_fence [] = None"
| "after_fence (c # cs) =
     (if starts_with ''```'' (c # cs) then Some (drop 3 (c # cs)) else after_fence cs)"

definition skip_json_tag :: "string \<Rightarrow> string" where
  "skip_json_tag t = (if lower (take 4 t) = ''json'' then drop 4 t else t)"

text \<open>
  The response from \<open>json_start\<close> on: from the first \<open>{\<close> after the fence when there is a
  fence, else from the first \<open>{\<close>. The empty text stands for \<open>json_start = -1\<close>.
\<close>

definition payload_from :: "string \<Rightarrow> string" where
  "payload_from llm_response =
     (let region = (case after_fence llm_response of
                      Some t \<Rightarrow> dropWhile is_space (skip_json_tag t)
                    | None \<Rightarrow> llm_response)
      in dropWhile (\<lambda>c. c \<noteq> CHR ''{'') region)"

text \<open>
  The brace-counting loop over the characters from \<open>json_start\<close>: the arguments are the
  characters left, \<open>brace_count\<close>, \<open>in_string\<close>, \<open>escape_next\<close> and the number of characters
  read. The result is \<open>json_end - json_start\<close> when the loop breaks (\<open>None\<close> when it runs to
  the end) and the final \<open>brace_count\<close>.
\<close>

fun scan_braces :: "string \<Rightarrow> int \<Rightarrow> bool \<Rightarrow> bool \<Rightarrow> nat \<Rightarrow> nat option \<times> int" where
  "scan_braces [] brace_count in_string escape_next n = (None, brace_count)"
| "scan_braces (c # cs) brace_count in_string escape_next n =
     (if escape_next then scan_braces cs brace_count in_string False (n + 1)
      else if c = CHR 0x5C then scan_braces cs brace_count in_string True (n + 1)
      else if c = CHR 0x22 then scan_braces cs brace_count (\<not> in_string) escape_next (n + 1)
      else if \<not> in_string then
        (if c = CHR ''{'' then scan_braces cs (brace_count + 1) in_string escape_next (n + 1)
         else if c = CHR ''}'' then
           (if brace_count - 1 = 0 then (Some (n + 1), brace_count - 1)
            else scan_braces cs (brace_count - 1) in_string escape_next (n + 1))
         else scan_braces cs brace_count in_string escape_next (n + 1))
      else scan_braces cs brace_count in_string escape_next (n + 1))"

text \<open>\<open>json_str\<close> before the clean-up: the balanced span, or the incomplete rest, or nothing.\<close>

definition candidate :: "string \<Rightarrow> string option" where
  "candidate llm_response =
     (let p = payload_from llm_response in
      if p = [] then None
      else case scan_braces p 0 False False 0 of
             (Some n, brace_count) \<Rightarrow> Some (take n p)
           | (None, brace_count) \<Rightarrow> if brace_count > 0 then Some p else None)"

subsection \<open>Repairs\<close>

definition closer :: "char \<Rightarrow> bool" where
  "closer c = (c = CHR ''}'' \<or> c = CHR '']'')"

definition is_comma :: "char \<Rightarrow> bool" where
  "is_comma c = (c = CHR '','')"

text \<open>
  The five substitutions. Each scans from the left; where the pattern matches, the match
  is replaced and the scan goes on after it, as \<open>re.sub\<close> does. In every pattern the
  classes that follow one another are disjoint, so the greedy match is the only one.

  \<open>re.sub(r',\s*([}\]])', r'\1', s)\<close>
\<close>

function sub_comma_space_closer :: "string \<Rightarrow> string" where
  "sub_comma_space_closer [] = []"
| "sub_comma_space_closer (c # cs) =
     (if is_comma c then
        (case dropWhile is_space cs of
           [] \<Rightarrow> c # sub_comma_space_closer cs
         | d # r \<Rightarrow> if closer d then d # sub_comma_space_closer r
                    else c # sub_comma_space_closer cs)
      else c # sub_comma_space_closer cs)"
  by pat_completeness auto
termination
proof (relation "measure length")
  fix c cs d r
  assume "dropWhile is_space cs = d # r"
  then have "length (d # r) \<le> length cs" by (metis length_dropWhile_le)
  then show "(r, c # cs) \<in> measure length" by simp
qed simp_all

text \<open>\<open>re.sub(r',+([}\]])', r'\1', s)\<close>\<close>

function sub_commas_closer :: "string \<Rightarrow> string" where
  "sub_commas_closer [] = []"
| "sub_commas_closer (c # cs) =
     (if is_comma c then
        (case dropWhile is_comma cs of
           [] \<Rightarrow> c # sub_commas_closer cs
         | d # r \<Rightarrow> if closer d then d # sub_commas_closer r
                    else c # sub_commas_closer cs)
      else c # sub_commas_closer cs)"
  by pat_completeness auto
termination
proof (relation "measure length")
  fix c cs d r
  assume "dropWhile is_comma cs = d # r"
  then have "length (d # r) \<le> length cs" by (metis length_dropWhile_le)
  then show "(r, c # cs) \<in> measure length" by simp
qed simp_all

text \<open>
  \<open>re.sub(r',\s*([}\]])+', r'\1', s)\<close>: group 1 is repeated, so \<open>\1\<close> is the last closer of
  the run.
\<close>

function sub_comma_space_closers :: "string \<Rightarrow> string" where
  "sub_comma_space_closers [] = []"
| "sub_comma_space_closers (c # cs) =
     (if is_comma c then
        (let run = takeWhile closer (dropWhile is_space cs) in
         if run = [] then c # sub_comma_space_closers cs
         else last run # sub_comma_space_closers (dropWhile closer (dropWhile is_space cs)))
      else c # sub_comma_space_closers cs)"
  by pat_completeness auto
termination
proof (relation "measure length")
  fix c cs
  have "length (dropWhile closer (dropWhile is_space cs)) \<le> length (dropWhile is_space cs)"
    by (rule length_dropWhile_le)
  also have "\<dots> \<le> length cs" by (rule length_dropWhile_le)
  finally show "(dropWhile closer (dropWhile is_space cs), c # cs) \<in> measure length" by simp
qed simp_all

text \<open>\<open>re.sub(r',+(\s*[}\]])', r'\1', s)\<close>\<close>

function sub_commas_group :: "string \<Rightarrow> string" where
  "sub_commas_group [] = []"
| "sub_commas_group (c # cs) =
     (if is_comma c then
        (case dropWhile is_space (dropWhile is_comma cs) of
           [] \<Rightarrow> c # sub_commas_group cs
         | d # r \<Rightarrow>
             if closer d
             then takeWhile is_space (dropWhile is_comma cs) @ d # sub_commas_group r
             else c # sub_commas_group cs)
      else c # sub_commas_group cs)"
  by pat_completeness auto
termination
proof (relation "measure length")
  fix c cs d r
  assume "dropWhile is_space (dropWhile is_comma cs) = d # r"
  then have "length (d # r) \<le> length (dropWhile is_comma cs)" by (metis length_dropWhile_le)
  also have "\<dots> \<le> length cs" by (rule length_dropWhile_le)
  finally show "(r, c # cs) \<in> measure length" by simp
qed simp_all

text \<open>
  \<open>re.sub(r',(\s*[}\]])+', lambda m: m.group(1), s)\<close>. \<open>closer_groups\<close> matches the
  repeated group \<open>(\s*[}\]])+\<close> at the head of a text and returns the text of its last
  repetition and the rest of the text after it. The scan keeps the white space read since
  the last closer and the last repetition completed.
\<close>

fun closer_groups_scan ::
  "string \<Rightarrow> string \<Rightarrow> (string \<times> string) option \<Rightarrow> (string \<times> string) option" where
  "closer_groups_scan [] ws found = found"
| "closer_groups_scan (c # cs) ws found =
     (if is_space c then closer_groups_scan cs (ws @ [c]) found
      else if closer c then closer_groups_scan cs [] (Some (ws @ [c], cs))
      else found)"

definition closer_groups :: "string \<Rightarrow> (string \<times> string) option" where
  "closer_groups s = closer_groups_scan s [] None"

lemma closer_groups_scan_shorter:
  "closer_groups_scan s ws found = Some (g, r) \<Longrightarrow> found = Some (g, r) \<or> length r < length s"
proof (induction s arbitrary: ws found)
  case Nil
  then show ?case by simp
next
  case (Cons c cs)
  show ?case
  proof (cases "is_space c")
    case True
    then have "closer_groups_scan cs (ws @ [c]) found = Some (g, r)" using Cons.prems by simp
    then have "found = Some (g, r) \<or> length r < length cs" by (rule Cons.IH)
    then show ?thesis by auto
  next
    case False
    show ?thesis
    proof (cases "closer c")
      case True
      then have "closer_groups_scan cs [] (Some (ws @ [c], cs)) = Some (g, r)"
        using Cons.prems False by simp
      then have "Some (ws @ [c], cs) = Some (g, r) \<or> length r < length cs" by (rule Cons.IH)
      then show ?thesis by auto
    next
      case c: False
      then show ?thesis using Cons.prems False by simp
    qed
  qed
qed

lemma closer_groups_shorter: "closer_groups s = Some (g, r) \<Longrightarrow> length r < Suc (length s)"
  unfolding closer_groups_def by (drule closer_groups_scan_shorter) auto

function sub_comma_groups :: "string \<Rightarrow> string" where
  "sub_comma_groups [] = []"
| "sub_comma_groups (c # cs) =
     (if is_comma c then
        (case closer_groups cs of
           None \<Rightarrow> c # sub_comma_groups cs
         | Some (g, r) \<Rightarrow> g @ sub_comma_groups r)
      else c # sub_comma_groups cs)"
  by pat_completeness auto
termination
  by (relation "measure length") (auto dest: closer_groups_shorter)

text \<open>Appending the closing braces that are missing.\<close>

definition count_char :: "char \<Rightarrow> string \<Rightarrow> nat" where
  "count_char c s = length (filter (\<lambda>x. x = c) s)"

definition close_braces :: "string \<Rightarrow> string" where
  "close_braces s =
     (let open_braces = count_char (CHR ''{'') s; close_braces = count_char (CHR ''}'') s in
      if open_braces > close_braces
      then s @ replicate (open_braces - close_braces) (CHR ''}'')
      else s)"

text \<open>The clean-up before the first parse: strip, the three substitutions, the braces.\<close>

definition first_repair :: "string \<Rightarrow> string" where
  "first_repair json_str =
     close_braces (sub_comma_space_closers (sub_commas_closer (sub_comma_space_closer (strip json_str))))"

text \<open>
  \<open>s.rfind(c, 0, hi)\<close> and \<open>s.find(c, lo)\<close>, with \<open>None\<close> for \<open>-1\<close>; a bound beyond the end
  of the text is cut to the end, as Python does.
\<close>

definition rfind_char :: "char \<Rightarrow> string \<Rightarrow> nat \<Rightarrow> nat option" where
  "rfind_char c s hi =
     (let p = take hi s in
      if c \<in> set p then Some (length p - 1 - length (takeWhile (\<lambda>x. x \<noteq> c) (rev p)))
      else None)"

definition find_char :: "char \<Rightarrow> string \<Rightarrow> nat \<Rightarrow> nat option" where
  "find_char c s lo =
     (let p = drop lo s in
      if c \<in> set p then Some (lo + length (takeWhile (\<lambda>x. x \<noteq> c) p))
      else None)"

text \<open>
  Strategy 3, reached after three failed parses with the last error \<open>final_error\<close>: close
  the unterminated string before the next brace, or cut the text at the last comma before
  the quote. Every path that does not produce data raises.
\<close>

definition fix_unterminated :: "decoder \<Rightarrow> string \<Rightarrow> string \<Rightarrow> nat \<Rightarrow> exn + json" where
  "fix_unterminated loads json_str msg error_pos =
     (let final_error = JSONDecodeError msg error_pos in
      if \<not> contains ''Unterminated string'' msg then Inl final_error
      else
        (case rfind_char (CHR 0x22) json_str error_pos of
           None \<Rightarrow> Inl final_error
         | Some last_quote_pos \<Rightarrow>
             if \<not> (last_quote_pos > 0 \<and> json_str ! (last_quote_pos - 1) \<noteq> CHR 0x5C)
             then Inl final_error
             else
               (case find_char (CHR ''}'') json_str error_pos of
                  None \<Rightarrow> Inl final_error
                | Some next_brace \<Rightarrow>
                    (case loads (take next_brace json_str @ [CHR 0x22] @ drop next_brace json_str) of
                       Inr parsed_data \<Rightarrow>
                         if parsed_data = JNull then Inl final_error else Inr parsed_data
                     | Inl (JSONDecodeError m p) \<Rightarrow>
                         (case rfind_char (CHR '','') json_str last_quote_pos of
                            None \<Rightarrow> Inl (JSONDecodeError m p)
                          | Some last_comma \<Rightarrow>
                              (case loads (close_braces (take last_comma json_str @ ''}'')) of
                                 Inr parsed_data \<Rightarrow>
                                   if parsed_data = JNull then Inl final_error
                                   else Inr parsed_data
                               | Inl e \<Rightarrow> Inl e))
                     | Inl e \<Rightarrow> Inl e))))"

text \<open>
  The parse attempts: the repaired text, then after the fourth substitution, then after
  the fifth, then strategy 3. \<open>except json.JSONDecodeError\<close> lets every other exception
  pass.
\<close>

definition decode_payload :: "decoder \<Rightarrow> string \<Rightarrow> exn + json" where
  "decode_payload loads json_str =
     (case loads json_str of
        Inr data \<Rightarrow> Inr data
      | Inl (JSONDecodeError m0 p0) \<Rightarrow>
          (let json_str1 = sub_commas_group json_str in
           case loads json_str1 of
             Inr data \<Rightarrow> Inr data
           | Inl (JSONDecodeError m1 p1) \<Rightarrow>
               (let json_str2 = sub_comma_groups json_str1 in
                case loads json_str2 of
                  Inr data \<Rightarrow> Inr data
                | Inl (JSONDecodeError msg pos) \<Rightarrow> fix_unterminated loads json_str2 msg pos
                | Inl e \<Rightarrow> Inl e)
           | Inl e \<Rightarrow> Inl e)
      | Inl e \<Rightarrow> Inl e)"

subsection \<open>The extractor\<close>

text \<open>
  The body of the outer \<open>try\<close>: the exception that leaves it, if any, and the mapping
  \<open>biomarkers\<close> as it stands at that point. \<open>data.items()\<close> on a value that is not a
  \<open>dict\<close> raises \<open>AttributeError\<close>.
\<close>

definition parse_try :: "decoder \<Rightarrow> string \<Rightarrow> exn option \<times> biomarkers" where
  "parse_try loads llm_response =
     (case candidate llm_response of
        None \<Rightarrow> (None, [])
      | Some json_str \<Rightarrow>
          (case decode_payload loads (first_repair json_str) of
             Inl e \<Rightarrow> (Some e, [])
           | Inr (JObject items) \<Rightarrow> build_entries items []
           | Inr _ \<Rightarrow> (Some AttributeError, [])))"

text \<open>
  \<open>_parse_biomarkers\<close>: the two handlers, \<open>except json.JSONDecodeError\<close> and
  \<open>except Exception\<close>, log and fall through to \<open>return biomarkers\<close>. \<open>Inl\<close> would be an
  exception leaving the function.
\<close>

definition parse_biomarkers :: "decoder \<Rightarrow> string \<Rightarrow> exn + biomarkers" where
  "parse_biomarkers loads llm_response =
     (case parse_try loads llm_response of
        (None, bm) \<Rightarrow> Inr bm
      | (Some (JSONDecodeError m p), bm) \<Rightarrow> Inr bm
      | (Some e, bm) \<Rightarrow> Inr bm)"

section \<open>Stage pipeline\<close>

subsection \<open>Collaborators\<close>

text \<open>
  The collaborators of the pipeline are parameters. \<open>llm_respond\<close> stands for lines
  416 to 473 of \<open>_interpret_lab_node\<close>: the preprocessing of the lab text, the prompt and
  the model call; it maps the redacted text to the content of the response, or to the
  exception that the node re-raises. \<open>json_loads\<close> is \<open>json.loads\<close>. \<open>scout_search\<close> is
  \<open>SpecialistScout.search_specialists\<close> with its arguments \<open>specialty\<close>, \<open>zip_code\<close> and
  \<open>condition\<close>. \<open>clock_now\<close> is \<open>datetime.now()\<close>, read at the place named.
\<close>

datatype moment = At_approval | At_interpreter | At_scout | At_audit

record env =
  llm_respond :: "string \<Rightarrow> exn + string"
  json_loads :: decoder
  scout_search :: "string \<Rightarrow> string \<Rightarrow> string option \<Rightarrow> exn + specialist_result list"
  clock_now :: "moment \<Rightarrow> timestamp"

text \<open>\<open>SpecialistScout._mock_search\<close>, the search of the repository as it stands.\<close>

definition mock_search :: "string \<Rightarrow> string \<Rightarrow> specialist_result list" where
  "mock_search specialty_name zip_code =
     [\<lparr>sr_name = ''Dr. Sarah Johnson, MD'', specialty = specialty_name,
       location = zip_code @ '' Area'', distance = Some ''2.3 miles'', rating = Some (24 / 5),
       url = Some ''https://www.healthgrades.com/physician/dr-sarah-johnson''\<rparr>,
      \<lparr>sr_name = ''Dr. Michael Chen, MD'', specialty = specialty_name,
       location = zip_code @ '' Area'', distance = Some ''4.1 miles'', rating = Some (23 / 5),
       url = Some ''https://www.healthgrades.com/physician/dr-michael-chen''\<rparr>,
      \<lparr>sr_name = ''Dr. Emily Rodriguez, DO'', specialty = specialty_name,
       location = zip_code @ '' Area'', distance = Some ''5.7 miles'', rating = Some (49 / 10),
       url = Some ''https://www.healthgrades.com/physician/dr-emily-rodriguez''\<rparr>]"

definition search_specialists ::
  "string \<Rightarrow> string \<Rightarrow> string option \<Rightarrow> exn + specialist_result list" where
  "search_specialists specialty_name zip_code condition = Inr (mock_search specialty_name zip_code)"

subsection \<open>Interpretation stage\<close>

text \<open>\<open>str(n)\<close> for a count.\<close>

definition digit_char :: "nat \<Rightarrow> char" where
  "digit_char d = ''0123456789'' ! d"

function show_nat :: "nat \<Rightarrow> string" where
  "show_nat n = (if n < 10 then [digit_char n] else show_nat (n div 10) @ [digit_char (n mod 10)])"
  by pat_completeness auto
termination
  by (relation "measure id") auto

declare show_nat.simps [simp del]

text \<open>
  The summary of lines 504 to 514; \<open>content\<close> is \<open>response.content\<close>. The conditional
  expression of line 514 binds weaker than \<open>+\<close>: the three points are appended to the
  first 200 characters.
\<close>

definition abnormal_count :: "biomarkers \<Rightarrow> nat" where
  "abnormal_count bm = length (filter (\<lambda>(k, b). status b \<noteq> ''normal'') bm)"

definition summary_text :: "biomarkers \<Rightarrow> string \<Rightarrow> string" where
  "summary_text bm content =
     (if bm \<noteq> [] then
        ''Successfully analyzed '' @ show_nat (length bm) @ '' biomarker(s). '' @
        (if abnormal_count bm = 0 then ''All values are within normal ranges.''
         else show_nat (abnormal_count bm) @ '' value(s) require attention.'')
      else if length content > 200 then take 200 content @ ''...''
      else content)"

text \<open>\<open>_interpret_lab_node\<close>. An exception of the model call or of the extractor leaves the node.\<close>

definition interpret_lab_node :: "env \<Rightarrow> session \<Rightarrow> exn + session" where
  "interpret_lab_node env state =
     (case llm_respond env (redacted_text state) of
        Inl e \<Rightarrow> Inl e
      | Inr content \<Rightarrow>
          (case parse_biomarkers (json_loads env) content of
             Inl e \<Rightarrow> Inl e
           | Inr bm \<Rightarrow>
               (let needed = list_ex (\<lambda>(k, b). abnormal b) bm;
                    referral = (if needed then Some (determine_specialist_type bm) else None)
                in Inr (state\<lparr>biomarkers := bm,
                                lab_interpreted := True,
                                specialist_needed := needed,
                                specialist_type := map_option fst referral,
                                specialist_condition := map_option snd referral,
                                interpretation_summary := Some (summary_text bm content),
                                updated_at := clock_now env At_interpreter\<rparr>))))"

subsection \<open>Specialist-lookup stage\<close>

text \<open>
  \<open>_specialist_scout_node\<close>. \<open>not state.get(k)\<close> holds for \<open>None\<close> and for the empty text.
  An exception of the search is logged and the state is returned as it is.
\<close>

definition specialist_scout_node :: "env \<Rightarrow> session \<Rightarrow> session" where
  "specialist_scout_node env state =
     (if \<not> specialist_search_approved state then state
      else case (specialist_type state, patient_zip state) of
        (Some ty, Some zip_code) \<Rightarrow>
          if ty = [] \<or> zip_code = [] then state
          else (case scout_search env ty zip_code (specialist_condition state) of
                  Inr results \<Rightarrow>
                    state\<lparr>specialist_results := results, updated_at := clock_now env At_scout\<rparr>
                | Inl e \<Rightarrow> state)
      | _ \<Rightarrow> state)"

text \<open>A field is present when it holds a non-empty text (Python's truth value of the field).\<close>

definition present :: "string option \<Rightarrow> bool" where
  "present x = (case x of None \<Rightarrow> False | Some t \<Rightarrow> t \<noteq> [])"

subsection \<open>Audit stage\<close>

text \<open>
  The disclaimer of \<open>_safety_audit_node\<close>. The warning sign at both ends of its first line
  (U+26A0 U+FE0F) lies outside the 8-bit range of the model and stands as its UTF-8 bytes.
\<close>

definition warning_sign :: string where
  "warning_sign = [CHR 0xE2, CHR 0x9A, CHR 0xA0, CHR 0xEF, CHR 0xB8, CHR 0x8F]"

definition disclaimer :: string where
  "disclaimer =
     warning_sign @ '' MEDICAL DISCLAIMER '' @ warning_sign @ [CHR 0x0A, CHR 0x0A] @
     ''This interpretation is for informational purposes only and does not constitute medical advice.'' @ [CHR 0x0A] @
     ''The results provided are based on automated analysis and should be reviewed by a licensed healthcare provider.'' @ [CHR 0x0A, CHR 0x0A] @
     ''1. This tool is not a substitute for professional medical diagnosis or treatment.'' @ [CHR 0x0A] @
     ''2. Always consult with a qualified healthcare provider for medical decisions.'' @ [CHR 0x0A] @
     ''3. In case of emergency, contact emergency services immediately.'' @ [CHR 0x0A] @
     ''4. Lab values may vary based on individual circumstances and testing methods.'' @ [CHR 0x0A, CHR 0x0A] @
     ''Generated by MediStream Agentic Triage System - For Educational/Portfolio Purposes Only.''"

definition safety_audit_node :: "env \<Rightarrow> session \<Rightarrow> session" where
  "safety_audit_node env state =
     state\<lparr>medical_disclaimer := Some disclaimer,
           safety_approved := True,
           updated_at := clock_now env At_audit\<rparr>"

subsection \<open>The graph\<close>

text \<open>
  \<open>_build_graph\<close>: the entry point is \<open>init\<close>, with the edges \<open>init\<close> to \<open>interpreter\<close>,
  \<open>interpreter\<close> to \<open>specialist_scout\<close> or \<open>safety_audit\<close> by \<open>_should_search_specialist\<close>,
  \<open>specialist_scout\<close> to \<open>safety_audit\<close>, and \<open>safety_audit\<close> to the end.
\<close>

datatype node = Init | Interpreter | Specialist_scout | Safety_audit

datatype route = Search | Skip

definition should_search_specialist :: "session \<Rightarrow> route" where
  "should_search_specialist state = (if specialist_needed state then Search else Skip)"

text \<open>
  Running the compiled graph on an input state (\<open>graph.astream(graph_state, config)\<close> and
  \<open>graph.ainvoke(graph_state, config)\<close>): a run on an input starts at the entry point, as
  the comments of \<open>run_interpretation\<close> and \<open>set_state\<close> say of their own calls. The result
  is the list of updates streamed, one per node that ran, and the exception that ended
  the run, if any.
\<close>

definition graph_stream :: "env \<Rightarrow> session \<Rightarrow> (node \<times> session) list \<times> exn option" where
  "graph_stream env graph_state =
     (case interpret_lab_node env graph_state of
        Inl e \<Rightarrow> ([(Init, graph_state)], Some e)
      | Inr s1 \<Rightarrow>
          (case should_search_specialist s1 of
             Search \<Rightarrow>
               (let s2 = specialist_scout_node env s1; s3 = safety_audit_node env s2
                in ([(Init, graph_state), (Interpreter, s1), (Specialist_scout, s2),
                     (Safety_audit, s3)], None))
           | Skip \<Rightarrow>
               (let s3 = safety_audit_node env s1
                in ([(Init, graph_state), (Interpreter, s1), (Safety_audit, s3)], None))))"

subsection \<open>Operations\<close>

text \<open>
  The checkpointer keeps, per thread id, the state after the last node that completed;
  \<open>get_state\<close> reads it. \<open>TriageState\<close> and \<open>GraphState\<close> have the same fields and the two
  conversions copy them, so one record stands for both.
\<close>

type_synonym checkpoints = "string \<rightharpoonup> session"

definition get_state :: "checkpoints \<Rightarrow> string \<Rightarrow> session option" where
  "get_state store sid = store sid"

text \<open>The state stored after a run that streamed the updates \<open>us\<close>.\<close>

definition checkpoint :: "checkpoints \<Rightarrow> string \<Rightarrow> (node \<times> session) list \<Rightarrow> checkpoints" where
  "checkpoint store sid us = (if us = [] then store else store(sid \<mapsto> snd (last us)))"

text \<open>\<open>set_state\<close>: the stream is left after the update of \<open>init\<close>.\<close>

definition set_state :: "checkpoints \<Rightarrow> string \<Rightarrow> session \<Rightarrow> checkpoints" where
  "set_state store sid state = checkpoint store sid [(Init, state)]"

datatype reply = Already_completed | Completed session | Running | Approved

text \<open>\<open>run_interpretation\<close>: the reply or the exception raised, and the checkpoints after the call.\<close>

definition run_interpretation :: "env \<Rightarrow> checkpoints \<Rightarrow> string \<Rightarrow> (exn + reply) \<times> checkpoints" where
  "run_interpretation env store sid =
     (case get_state store sid of
        None \<Rightarrow> (Inl (ValueError (''Session '' @ sid @ '' not found'')), store)
      | Some current_state \<Rightarrow>
          if lab_interpreted current_state then (Inr Already_completed, store)
          else
            (case graph_stream env current_state of
               (us, Some e) \<Rightarrow> (Inl e, checkpoint store sid us)
             | (us, None) \<Rightarrow>
                 (if us = [] then (Inr Running, checkpoint store sid us)
                  else (Inr (Completed (snd (last us))), checkpoint store sid us))))"

text \<open>\<open>approve_specialist_search\<close>.\<close>

definition approve_specialist_search ::
  "env \<Rightarrow> checkpoints \<Rightarrow> string \<Rightarrow> (exn + reply) \<times> checkpoints" where
  "approve_specialist_search env store sid =
     (case get_state store sid of
        None \<Rightarrow> (Inl (ValueError ''Session not found''), store)
      | Some state \<Rightarrow>
          (let graph_state = state\<lparr>specialist_search_approved := True,
                                    updated_at := clock_now env At_approval\<rparr>
           in case graph_stream env graph_state of
                (us, Some e) \<Rightarrow> (Inl e, checkpoint store sid us)
              | (us, None) \<Rightarrow> (Inr Approved, checkpoint store sid us)))"

section \<open>Example inputs\<close>

text \<open>
  The session that \<open>upload_lab\<close> creates (\<open>main.py\<close>, lines 103 to 113), with sample texts
  and a sample clock reading, and the same session with a zip code.
\<close>

definition uploaded :: session where
  "uploaded =
     \<lparr>session_id = ''session_1'', raw_text = ''Glucose 110 mg/dL (70-99) Jane Doe'',
      redacted_text = ''Glucose 110 mg/dL (70-99) <PERSON>'',
      lab_interpreted = False, biomarkers = [], interpretation_summary = None,
      specialist_needed = False, specialist_condition = None, specialist_type = None,
      patient_zip = None, specialist_search_approved = False, specialist_results = [],
      safety_approved = False, medical_disclaimer = None, fhir_observation_id = None,
      fhir_patient_id = None, created_at = 1, updated_at = 1\<rparr>"

definition uploaded_zip :: session where
  "uploaded_zip = uploaded\<lparr>patient_zip := Some ''94110''\<rparr>"

text \<open>
  A response of the model with one abnormal biomarker, and what \<open>json.loads\<close> returns for
  it. \<open>loads_glucose\<close> answers this one text; for any other text it answers as \<open>json.loads\<close>
  does for a text that holds no value.
\<close>

definition glucose_response :: string where
  \<open>glucose_response =
     ''{"Glucose": {"Name": "Glucose", "Value": "110 mg/dL", "Normal_range": "70-99 mg/dL", "Status": "High", "Interpretation": "Above range."}}''\<close>

definition glucose_data :: json where
  "glucose_data =
     JObject [(''Glucose'', JObject [(''Name'', JString ''Glucose''),
                                     (''Value'', JString ''110 mg/dL''),
                                     (''Normal_range'', JString ''70-99 mg/dL''),
                                     (''Status'', JString ''High''),
                                     (''Interpretation'', JString ''Above range.'')])]"

definition loads_glucose :: decoder where
  "loads_glucose t =
     (if t = glucose_response then Inr glucose_data
      else Inl (JSONDecodeError ''Expecting value'' 0))"

text \<open>
  Environments: the model answers with a given text; the search is the mock search of the
  repository; the clock reads 2 at the approval, 3, 4 and 5 in the three nodes.
\<close>

definition sample_clock :: "moment \<Rightarrow> timestamp" where
  "sample_clock m = (case m of At_approval \<Rightarrow> 2 | At_interpreter \<Rightarrow> 3 | At_scout \<Rightarrow> 4 | At_audit \<Rightarrow> 5)"

definition answering :: "string \<Rightarrow> env" where
  "answering content =
     \<lparr>llm_respond = (\<lambda>lab_text. Inr content), json_loads = loads_glucose,
      scout_search = search_specialists, clock_now = sample_clock\<rparr>"

text \<open>A search that fails, and a model call that fails.\<close>

definition failing_search :: "env" where
  "failing_search =
     \<lparr>llm_respond = (\<lambda>lab_text. Inr glucose_response), json_loads = loads_glucose,
      scout_search = (\<lambda>specialty_name zip_code condition. Inl (OtherError ''TimeoutError'')),
      clock_now = sample_clock\<rparr>"

definition failing_model :: "env" where
  "failing_model =
     \<lparr>llm_respond = (\<lambda>lab_text. Inl (OtherError ''APITimeoutError'')), json_loads = loads_glucose,
      scout_search = search_specialists, clock_now = sample_clock\<rparr>"

text \<open>The biomarker that the extractor builds from \<open>glucose_response\<close>.\<close>

definition glucose_reading :: biomarker where
  "glucose_reading =
     \<lparr>name = ''Glucose'', value = 110, unit = ''mg/dL'', normal_range_min = Some 70,
      normal_range_max = Some 99, status = ''high'', interpretation = Some ''Above range.''\<rparr>"

text \<open>
  A session after an interpretation that found the glucose reading, with the search
  approved, and the store that holds it.
\<close>

definition referred :: session where
  "referred =
     uploaded_zip\<lparr>lab_interpreted := True,
                  biomarkers := [(''Glucose'', glucose_reading)],
                  interpretation_summary :=
                    Some ''Successfully analyzed 1 biomarker(s). 1 value(s) require attention.'',
                  specialist_needed := True,
                  specialist_type := Some ''Endocrinologist'',
                  specialist_condition := Some ''Diabetes/Glucose Management'',
                  specialist_search_approved := True\<rparr>"

text \<open>A response of 201 characters without any brace, and a short one.\<close>

definition long_response :: string where
  "long_response = replicate 201 (CHR ''x'')"

definition short_response :: string where
  "short_response = ''Unable to read the report.''"

text \<open>
  The truncated response of the specification, which ends inside the object, and what
  \<open>json.loads\<close> returns for it once the two closing braces are appended.
\<close>

definition truncated_response :: string where
  \<open>truncated_response = ''{"K": {"Name":"K","Value":"5.8 mmol/L","Status":"high"''\<close>

definition potassium_data :: json where
  "potassium_data =
     JObject [(''K'', JObject [(''Name'', JString ''K''), (''Value'', JString ''5.8 mmol/L''),
                               (''Status'', JString ''high'')])]"

definition loads_truncated :: decoder where
  "loads_truncated t =
     (if t = truncated_response @ ''}}'' then Inr potassium_data
      else Inl (JSONDecodeError ''Expecting value'' 0))"

definition potassium_reading :: biomarker where
  "potassium_reading =
     \<lparr>name = ''K'', value = 29 / 5, unit = ''mmol/L'', normal_range_min = None,
      normal_range_max = None, status = ''high'', interpretation = None\<rparr>"

text \<open>
  A response whose payload no repair makes parseable, and what \<open>json.loads\<close> raises for
  it: "Expecting value" at position 6. The clean-up and the substitutions leave this text
  as it is.
\<close>

definition broken_response :: string where
  \<open>broken_response = ''{"K": high}''\<close>

definition loads_broken :: decoder where
  "loads_broken t = Inl (JSONDecodeError ''Expecting value'' 6)"

text \<open>
  A response whose third entry has a status that is not a text, after an entry that
  converts and an entry whose value is not an object, and what \<open>json.loads\<close> returns for it.
\<close>

definition partial_response :: string where
  \<open>partial_response =
     ''{"Na": {"Value": "141 mmol/L", "Normal_range": "135-145", "Status": "normal"}, "note": "fasting", "K": {"Value": "5.8 mmol/L", "Status": 5}, "Cl": {"Value": "100 mmol/L", "Status": "normal"}}''\<close>

definition partial_data :: "(string \<times> json) list" where
  "partial_data =
     [(''Na'', JObject [(''Value'', JString ''141 mmol/L''), (''Normal_range'', JString ''135-145''),
                        (''Status'', JString ''normal'')]),
      (''note'', JString ''fasting''),
      (''K'', JObject [(''Value'', JString ''5.8 mmol/L''), (''Status'', JNumber 5)]),
      (''Cl'', JObject [(''Value'', JString ''100 mmol/L''), (''Status'', JString ''normal'')])]"

definition loads_partial :: decoder where
  "loads_partial t =
     (if t = partial_response then Inr (JObject partial_data)
      else Inl (JSONDecodeError ''Expecting value'' 0))"

definition sodium_reading :: biomarker where
  "sodium_reading =
     \<lparr>name = ''Na'', value = 141, unit = ''mmol/L'', normal_range_min = Some 135,
      normal_range_max = Some 145, status = ''normal'', interpretation = None\<rparr>"

text \<open>
  A response that ends inside a quoted string. For the repaired text, which still holds
  the unterminated string, \<open>json.loads\<close> raises "Unterminated string starting at" with the
  position 48 of the opening quote; for the text with the quote closed before the next
  brace it returns the data.
\<close>

definition unterminated_response :: string where
  \<open>unterminated_response = ''{"K": {"Name":"K","Value":"5.8 mmol/L","Status":"hi''\<close>

definition unterminated_fixed :: string where
  \<open>unterminated_fixed = ''{"K": {"Name":"K","Value":"5.8 mmol/L","Status":"hi"}}''\<close>

definition loads_unterminated :: decoder where
  "loads_unterminated t =
     (if t = unterminated_fixed
      then Inr (JObject [(''K'', JObject [(''Name'', JString ''K''),
                                          (''Value'', JString ''5.8 mmol/L''),
                                          (''Status'', JString ''hi'')])])
      else Inl (JSONDecodeError ''Unterminated string starting at'' 48))"

text \<open>
  The fenced response of the specification, with prose around the fence and a trailing
  comma; the payload located in it; and the payload after the first clean-up.
\<close>

definition fenced_response :: string where
  \<open>fenced_response =
     ''prefix ```json'' @ [CHR 0x0A] @
     ''{"Na": {"Name":"Na","Value":"141 mmol/L","Normal_range":"135-145","Status":"normal",}}'' @
     [CHR 0x0A] @ ''``` suffix''\<close>

definition fenced_payload :: string where
  \<open>fenced_payload =
     ''{"Na": {"Name":"Na","Value":"141 mmol/L","Normal_range":"135-145","Status":"normal",}}''\<close>

definition fenced_clean :: string where
  \<open>fenced_clean =
     ''{"Na": {"Name":"Na","Value":"141 mmol/L","Normal_range":"135-145","Status":"normal"}}''\<close>

section \<open>Properties of normal-range parsing\<close>

lemma numch_not_space: "numch c \<Longrightarrow> \<not> is_space c"
  by (auto simp: numch_def is_digit_def is_space_def)

lemma numch_not_opch: "numch c \<Longrightarrow> \<not> opch c"
  by (auto simp: numch_def is_digit_def opch_def)

lemma opch_not_space: "opch c \<Longrightarrow> \<not> is_space c"
  by (auto simp: opch_def is_space_def)

lemma hyphen_class [simp]:
  "\<not> numch (CHR ''-'')" "\<not> is_space (CHR ''-'')" "\<not> opch (CHR ''-'')"
  by (simp_all add: numch_def is_digit_def is_space_def opch_def)

lemma takeWhile_run:
  "list_all P xs \<Longrightarrow> (ys = [] \<or> \<not> P (hd ys)) \<Longrightarrow> takeWhile P (xs @ ys) = xs"
  by (induction xs) (auto simp: takeWhile_eq_Nil_iff)

lemma dropWhile_run:
  "list_all P xs \<Longrightarrow> (ys = [] \<or> \<not> P (hd ys)) \<Longrightarrow> dropWhile P (xs @ ys) = ys"
  by (induction xs) (auto simp: dropWhile_eq_self_iff)

lemma space_not_numch: "is_space c \<Longrightarrow> \<not> numch c"
  using numch_not_space by blast

lemma match_range_at_shape:
  assumes A: "A \<noteq> []" "list_all numch A" and B: "B \<noteq> []" "list_all numch B"
    and ws: "list_all is_space ws" "list_all is_space ws'"
    and post: "post = [] \<or> \<not> numch (hd post)"
  shows "match_range_at (A @ ws @ CHR ''-'' # ws' @ B @ post) = Some (A, B)"
proof -
  let ?s = "A @ ws @ CHR ''-'' # ws' @ B @ post"
  have h1: "\<not> numch (hd (ws @ CHR ''-'' # ws' @ B @ post))"
    using ws(1) by (cases ws) (auto dest: space_not_numch)
  have t1: "takeWhile numch ?s = A" using A(2) h1 by (intro takeWhile_run) simp_all
  have d1: "dropWhile numch ?s = ws @ CHR ''-'' # ws' @ B @ post"
    using A(2) h1 by (intro dropWhile_run) simp_all
  have d2: "dropWhile is_space (ws @ CHR ''-'' # ws' @ B @ post) = CHR ''-'' # ws' @ B @ post"
    using ws(1) by (intro dropWhile_run) simp_all
  have hB: "\<not> is_space (hd (B @ post))" using B by (cases B) (auto dest: numch_not_space)
  have d3: "dropWhile is_space (ws' @ B @ post) = B @ post"
    using ws(2) hB by (intro dropWhile_run) simp_all
  have t2: "takeWhile numch (B @ post) = B" using B(2) post by (intro takeWhile_run) simp_all
  have "match_range_at ?s = (if A = [] then None else if B = [] then None else Some (A, B))"
    unfolding match_range_at_def Let_def t1 d1 d2 list.case d3 t2 by simp
  then show ?thesis using A(1) B(1) by simp
qed


lemma takeWhile_none: "list_all (\<lambda>c. \<not> P c) xs \<Longrightarrow> takeWhile P xs = []"
  by (cases xs) auto

lemma takeWhile_dropWhile_none:
  "list_all (\<lambda>c. \<not> P c) xs \<Longrightarrow> takeWhile P (dropWhile Q xs) = []"
proof -
  assume a: "list_all (\<lambda>c. \<not> P c) xs"
  have "set (dropWhile Q xs) \<subseteq> set xs" by (auto dest: set_dropWhileD)
  with a have "list_all (\<lambda>c. \<not> P c) (dropWhile Q xs)" by (auto simp: list_all_iff)
  then show ?thesis by (rule takeWhile_none)
qed

lemma match_range_at_nonnum: "\<not> numch c \<Longrightarrow> match_range_at (c # cs) = None"
  by (simp add: match_range_at_def)

lemma range_search_skip:
  "list_all (\<lambda>c. \<not> numch c) pre \<Longrightarrow> range_search (pre @ s) = range_search s"
  by (induction pre) (simp_all add: match_range_at_nonnum)

lemma range_search_head: "match_range_at s = Some g \<Longrightarrow> range_search s = Some g"
proof (cases s)
  case Nil
  assume "match_range_at s = Some g"
  then show ?thesis unfolding Nil by (simp add: match_range_at_def)
next
  case (Cons c cs)
  assume "match_range_at s = Some g"
  then show ?thesis unfolding Cons by simp
qed

lemma range_search_shape:
  assumes "list_all (\<lambda>c. \<not> numch c) pre"
    and "A \<noteq> []" "list_all numch A" and "B \<noteq> []" "list_all numch B"
    and "list_all is_space ws" "list_all is_space ws'"
    and "post = [] \<or> \<not> numch (hd post)"
  shows "range_search (pre @ A @ ws @ CHR ''-'' # ws' @ B @ post) = Some (A, B)"
proof -
  have "match_range_at (A @ ws @ CHR ''-'' # ws' @ B @ post) = Some (A, B)"
    using assms(2-) by (rule match_range_at_shape)
  then have "range_search (A @ ws @ CHR ''-'' # ws' @ B @ post) = Some (A, B)"
    by (rule range_search_head)
  then show ?thesis using assms(1) by (simp only: range_search_skip)
qed

lemma match_range_at_one_run:
  assumes "list_all numch V" "list_all (\<lambda>c. \<not> numch c) post"
  shows "match_range_at (V @ post) = None"
proof -
  have hp: "post = [] \<or> \<not> numch (hd post)" using assms(2) by (cases post) simp_all
  have d1: "dropWhile numch (V @ post) = post" using assms(1) hp by (rule dropWhile_run)
  show ?thesis
  proof (cases "dropWhile is_space post")
    case Nil
    show ?thesis unfolding match_range_at_def Let_def d1 Nil by simp
  next
    case (Cons c r2)
    have "set (dropWhile is_space post) \<subseteq> set post"
      by (auto dest: set_dropWhileD)
    then have "set r2 \<subseteq> set post" unfolding Cons by simp
    then have "list_all (\<lambda>c. \<not> numch c) r2" using assms(2) by (auto simp: list_all_iff)
    then have b: "takeWhile numch (dropWhile is_space r2) = []" by (rule takeWhile_dropWhile_none)
    show ?thesis unfolding match_range_at_def Let_def d1 Cons list.case b by simp
  qed
qed

lemma range_search_one_run:
  assumes "list_all numch V" "list_all (\<lambda>c. \<not> numch c) post"
  shows "range_search (V @ post) = None"
  using assms
proof (induction V)
  case Nil
  then show ?case using range_search_skip[of post "[]"] by simp
next
  case (Cons c V)
  have "match_range_at ((c # V) @ post) = None"
    using Cons.prems by (rule match_range_at_one_run)
  moreover have "range_search (V @ post) = None" using Cons by simp
  ultimately show ?case by simp
qed

lemma range_search_single_value:
  assumes "list_all (\<lambda>c. \<not> numch c) pre" "list_all numch V" "list_all (\<lambda>c. \<not> numch c) post"
  shows "range_search (pre @ V @ post) = None"
  using assms by (simp only: range_search_skip range_search_one_run)

lemma opch_not_numch: "opch c \<Longrightarrow> \<not> numch c"
  using numch_not_opch by blast

lemma space_not_opch: "is_space c \<Longrightarrow> \<not> opch c"
  using opch_not_space by blast

lemma dropWhile_append_ex:
  "\<exists>x\<in>set xs. \<not> P x \<Longrightarrow> dropWhile P (xs @ ys) = dropWhile P xs @ ys"
  by (induction xs) auto

text \<open>the match at the head: operator run, white space, value\<close>

lemma match_single_at_shape:
  assumes op: "list_all opch oper" and ws: "list_all is_space ws"
    and V: "V \<noteq> []" "list_all numch V" and post: "post = [] \<or> \<not> numch (hd post)"
  shows "match_single_at (oper @ ws @ V @ post) = Some (oper, V)"
proof -
  have hV: "\<not> is_space (hd (V @ post))" "\<not> opch (hd (V @ post))"
    using V by (cases V; auto dest: numch_not_space numch_not_opch)+
  have h1: "\<not> opch (hd (ws @ V @ post))"
    using ws hV(2) by (cases ws) (auto dest: space_not_opch)
  have t1: "takeWhile opch (oper @ ws @ V @ post) = oper"
    using op h1 by (intro takeWhile_run) simp_all
  have d1: "dropWhile opch (oper @ ws @ V @ post) = ws @ V @ post"
    using op h1 by (intro dropWhile_run) simp_all
  have d2: "dropWhile is_space (ws @ V @ post) = V @ post"
    using ws hV(1) by (intro dropWhile_run) simp_all
  have t2: "takeWhile numch (V @ post) = V" using V(2) post by (intro takeWhile_run) simp_all
  have "match_single_at (oper @ ws @ V @ post) = (if V = [] then None else Some (oper, V))"
    unfolding match_single_at_def Let_def t1 d1 d2 t2 by simp
  then show ?thesis using V(1) by simp
qed

text \<open>no match starts inside a prefix that has no digit or point and does not end in an operator\<close>

lemma match_single_at_prefix:
  assumes X: "X \<noteq> []" "list_all (\<lambda>c. \<not> numch c) X" "\<not> opch (last X)"
    and R: "R \<noteq> []" "opch (hd R)"
  shows "match_single_at (X @ R) = None"
proof -
  have ex: "\<exists>x\<in>set X. \<not> opch x" using X(1,3) last_in_set by blast
  have d1: "dropWhile opch (X @ R) = dropWhile opch X @ R"
    using ex by (rule dropWhile_append_ex)
  let ?Y = "dropWhile opch X"
  have Yne: "?Y \<noteq> []" using ex by (simp add: dropWhile_eq_Nil_conv)
  have Ysub: "set ?Y \<subseteq> set X" by (auto dest: set_dropWhileD)
  have "takeWhile numch (dropWhile is_space (?Y @ R)) = []"
  proof (cases "\<exists>y\<in>set ?Y. \<not> is_space y")
    case True
    then have d2: "dropWhile is_space (?Y @ R) = dropWhile is_space ?Y @ R"
      by (rule dropWhile_append_ex)
    have ne: "dropWhile is_space ?Y \<noteq> []" using True by (simp add: dropWhile_eq_Nil_conv)
    then have "hd (dropWhile is_space ?Y) \<in> set (dropWhile is_space ?Y)" by simp
    then have "hd (dropWhile is_space ?Y) \<in> set X" using Ysub by (auto dest: set_dropWhileD)
    then have "\<not> numch (hd (dropWhile is_space ?Y))" using X(2) by (auto simp: list_all_iff)
    then show ?thesis unfolding d2 using ne by (cases "dropWhile is_space ?Y") simp_all
  next
    case False
    then have all: "list_all is_space ?Y" by (auto simp: list_all_iff)
    have "\<not> is_space (hd R)" using R(2) by (auto dest: opch_not_space)
    then have d2: "dropWhile is_space (?Y @ R) = R" using all R(1) by (intro dropWhile_run) simp_all
    have "\<not> numch (hd R)" using R(2) by (auto dest: opch_not_numch)
    then show ?thesis unfolding d2 using R(1) by (cases R) simp_all
  qed
  then show ?thesis unfolding match_single_at_def Let_def d1 by simp
qed

lemma single_search_head: "match_single_at s = Some g \<Longrightarrow> single_search s = Some g"
proof (cases s)
  case Nil
  assume "match_single_at s = Some g"
  then show ?thesis unfolding Nil by (simp add: match_single_at_def)
next
  case (Cons c cs)
  assume "match_single_at s = Some g"
  then show ?thesis unfolding Cons by simp
qed

lemma single_search_operator:
  assumes pre: "list_all (\<lambda>c. \<not> numch c) pre" "pre = [] \<or> \<not> opch (last pre)"
    and op: "oper \<noteq> []" "list_all opch oper" and ws: "list_all is_space ws"
    and V: "V \<noteq> []" "list_all numch V" and post: "post = [] \<or> \<not> numch (hd post)"
  shows "single_search (pre @ oper @ ws @ V @ post) = Some (oper, V)"
  using pre
proof (induction pre)
  case Nil
  have "match_single_at (oper @ ws @ V @ post) = Some (oper, V)"
    using op(2) ws V post by (rule match_single_at_shape)
  then show ?case by (simp add: single_search_head)
next
  case (Cons c p)
  let ?R = "oper @ ws @ V @ post"
  have R: "?R \<noteq> []" "opch (hd ?R)" using op by (cases oper; simp)+
  have "\<not> opch (last (c # p))" using Cons.prems(2) by simp
  then have "match_single_at ((c # p) @ ?R) = None"
    using Cons.prems(1) R by (intro match_single_at_prefix) simp_all
  moreover have "single_search (p @ ?R) = Some (oper, V)"
    using Cons by (cases p) (simp_all split: if_splits)
  ultimately show ?case by simp
qed

text \<open>no operator character before the value\<close>

lemma single_search_plain:
  assumes pre: "list_all (\<lambda>c. \<not> numch c \<and> \<not> opch c) pre"
    and V: "V \<noteq> []" "list_all numch V" and post: "post = [] \<or> \<not> numch (hd post)"
  shows "single_search (pre @ V @ post) = Some ([], V)"
  using pre
proof (induction pre)
  case Nil
  have "match_single_at ([] @ [] @ V @ post) = Some ([], V)"
    using V post by (intro match_single_at_shape) simp_all
  then show ?case by (simp add: single_search_head)
next
  case (Cons c p)
  have ih: "single_search (p @ V @ post) = Some ([], V)" using Cons by simp
  have c: "\<not> numch c" "\<not> opch c" using Cons.prems by simp_all
  have np: "list_all (\<lambda>c. \<not> numch c) (c # p)" using Cons.prems by (auto simp: list_all_iff)
  show ?case
  proof (cases "list_all is_space (c # p)")
    case True
    have "match_single_at ([] @ (c # p) @ V @ post) = Some ([], V)"
      using True V post by (intro match_single_at_shape) simp_all
    then show ?thesis by simp
  next
    case False
    have t1: "takeWhile opch ((c # p) @ V @ post) = []" using c(2) by simp
    have d1: "dropWhile opch ((c # p) @ V @ post) = (c # p) @ V @ post" using c(2) by simp
    from False have ex: "\<exists>y\<in>set (c # p). \<not> is_space y" by (auto simp: list_all_iff)
    then have d2: "dropWhile is_space ((c # p) @ V @ post) = dropWhile is_space (c # p) @ V @ post"
      by (rule dropWhile_append_ex)
    have ne: "dropWhile is_space (c # p) \<noteq> []" using ex by (simp only: dropWhile_eq_Nil_conv) blast
    then have "hd (dropWhile is_space (c # p)) \<in> set (dropWhile is_space (c # p))" by simp
    then have "hd (dropWhile is_space (c # p)) \<in> set (c # p)" by (auto dest: set_dropWhileD)
    then have "\<not> numch (hd (dropWhile is_space (c # p)))" using np by (auto simp: list_all_iff)
    then have "takeWhile numch (dropWhile is_space (c # p) @ V @ post) = []"
      using ne by (cases "dropWhile is_space (c # p)") simp_all
    then have "match_single_at ((c # p) @ V @ post) = None"
      unfolding match_single_at_def Let_def d1 d2 by simp
    then show ?thesis using ih by simp
  qed
qed

lemma no_number_hd: "no_number post \<Longrightarrow> post = [] \<or> \<not> numch (hd post)"
  by (cases post) (simp_all add: no_number_def)

lemma mantissa_digit: "mantissa m = Some x \<Longrightarrow> \<exists>c\<in>set m. is_digit c"
proof -
  assume a: "mantissa m = Some x"
  let ?ip = "takeWhile is_digit m" and ?r = "dropWhile is_digit m"
  have m: "m = ?ip @ ?r" by simp
  show ?thesis
  proof (cases "?ip = []")
    case False
    then obtain c where "c \<in> set ?ip" by (cases ?ip) auto
    then have "c \<in> set m \<and> is_digit c" by (auto dest: set_takeWhileD)
    then show ?thesis by blast
  next
    case True
    show ?thesis
    proof (cases ?r)
      case Nil
      have "m = []" using takeWhile_dropWhile_id[of is_digit m] unfolding True Nil by simp
      then show ?thesis using a by (simp add: mantissa_def)
    next
      case (Cons c fp)
      then have "fp \<noteq> [] \<and> list_all is_digit fp"
        using a True unfolding mantissa_def Let_def by (simp split: if_splits)
      then obtain d where d: "d \<in> set fp" "is_digit d" by (cases fp) auto
      have "set fp \<subseteq> set ?r" unfolding Cons by auto
      then have "d \<in> set m" using d(1) by (auto dest: set_dropWhileD)
      then show ?thesis using d(2) by blast
    qed
  qed
qed

lemma py_float_digit: "py_float t = Some x \<Longrightarrow> \<exists>c\<in>set t. is_digit c"
proof -
  assume a: "py_float t = Some x"
  then obtain y where "mantissa (takeWhile (\<lambda>c. \<not> is_e c) t) = Some y"
    unfolding py_float_def Let_def by (auto split: option.splits)
  then obtain c where "c \<in> set (takeWhile (\<lambda>c. \<not> is_e c) t)" "is_digit c"
    using mantissa_digit by blast
  then show ?thesis by (auto dest: set_takeWhileD)
qed

lemma py_float_no_digit: "list_all (\<lambda>c. \<not> is_digit c) t \<Longrightarrow> py_float t = None"
  using py_float_digit[of t] by (cases "py_float t") (auto simp: list_all_iff)

lemma match_range_at_sub: "match_range_at t = Some (a, b) \<Longrightarrow> set a \<subseteq> set t"
  unfolding match_range_at_def Let_def
  by (auto split: if_splits list.splits dest: set_takeWhileD)

lemma range_search_sub: "range_search s = Some (a, b) \<Longrightarrow> set a \<subseteq> set s"
proof (induction s)
  case Nil
  then show ?case by simp
next
  case (Cons c cs)
  show ?case
  proof (cases "match_range_at (c # cs)")
    case None
    then show ?thesis using Cons by auto
  next
    case (Some g)
    then have "match_range_at (c # cs) = Some (a, b)" using Cons.prems by simp
    then show ?thesis by (rule match_range_at_sub)
  qed
qed

lemma match_single_at_sub: "match_single_at t = Some (a, b) \<Longrightarrow> set b \<subseteq> set t"
  unfolding match_single_at_def Let_def
  by (auto split: if_splits dest!: set_takeWhileD set_dropWhileD)

lemma single_search_sub: "single_search s = Some (a, b) \<Longrightarrow> set b \<subseteq> set s"
proof (induction s)
  case Nil
  then show ?case by simp
next
  case (Cons c cs)
  show ?case
  proof (cases "match_single_at (c # cs)")
    case None
    then show ?thesis using Cons by auto
  next
    case (Some g)
    then have "match_single_at (c # cs) = Some (a, b)" using Cons.prems by simp
    then show ?thesis by (rule match_single_at_sub)
  qed
qed

lemma parse_no_digit:
  assumes "list_all (\<lambda>c. \<not> is_digit c) s"
  shows "parse_normal_range s = (None, None)"
proof -
  have r: "range_part s = None"
  proof (cases "range_search s")
    case None
    then show ?thesis by (simp add: range_part_def)
  next
    case (Some g)
    obtain a b where g: "g = (a, b)" by (cases g)
    have "set a \<subseteq> set s" using Some g range_search_sub by simp
    then have "list_all (\<lambda>c. \<not> is_digit c) a" using assms by (auto simp: list_all_iff)
    then have "py_float a = None" by (rule py_float_no_digit)
    then show ?thesis by (simp add: range_part_def Some g)
  qed
  have s: "single_part s = None"
  proof (cases "single_search s")
    case None
    then show ?thesis by (simp add: single_part_def)
  next
    case (Some g)
    obtain a b where g: "g = (a, b)" by (cases g)
    have "set b \<subseteq> set s" using Some g single_search_sub by simp
    then have "list_all (\<lambda>c. \<not> is_digit c) b" using assms by (auto simp: list_all_iff)
    then have "py_float b = None" by (rule py_float_no_digit)
    then show ?thesis by (simp add: single_part_def Some g)
  qed
  show ?thesis by (simp add: parse_normal_range_def r s)
qed

lemma parse_range_shape:
  assumes "no_number pre" "number_text A" "number_text B" "spaces ws" "spaces ws'"
    and "post = [] \<or> \<not> numch (hd post)"
    and "py_float A = Some x" "py_float B = Some y"
  shows "parse_normal_range (pre @ A @ ws @ CHR ''-'' # ws' @ B @ post) = (Some x, Some y)"
proof -
  have "range_search (pre @ A @ ws @ CHR ''-'' # ws' @ B @ post) = Some (A, B)"
    using assms(1-6) unfolding no_number_def number_text_def spaces_def
    by (intro range_search_shape) simp_all
  then have "range_part (pre @ A @ ws @ CHR ''-'' # ws' @ B @ post) = Some (Some x, Some y)"
    using assms(7,8) by (simp add: range_part_def)
  moreover have "pre @ A @ ws @ CHR ''-'' # ws' @ B @ post \<noteq> []" by simp
  ultimately show ?thesis unfolding parse_normal_range_def by simp
qed

lemma parse_operator_shape:
  assumes "no_number pre" "no_operator_end pre" "oper \<noteq> []" "list_all opch oper"
    "spaces ws" "number_text V" "no_number post"
  shows "parse_normal_range (pre @ oper @ ws @ V @ post) =
     (case py_float V of None \<Rightarrow> (None, None)
      | Some val \<Rightarrow> if oper = ''<'' then (None, Some val)
                  else if oper = ''>'' then (Some val, None) else (Some val, Some val))"
proof -
  let ?s = "pre @ oper @ ws @ V @ post"
  have V: "V \<noteq> []" "list_all numch V" using assms(6) by (simp_all add: number_text_def)
  have nn: "list_all (\<lambda>c. \<not> numch c) (pre @ oper @ ws)"
    using assms(1,4,5) unfolding no_number_def spaces_def
    by (auto simp: list_all_iff dest: opch_not_numch space_not_numch)
  have "range_search ((pre @ oper @ ws) @ V @ post) = None"
    using nn V(2) assms(7) unfolding no_number_def by (rule range_search_single_value)
  then have r: "range_part ?s = None" by (simp add: range_part_def)
  have "single_search ?s = Some (oper, V)"
    using assms(1,2,3,4,5) V no_number_hd[OF assms(7)]
    unfolding no_number_def no_operator_end_def spaces_def
    by (intro single_search_operator) simp_all
  then have s: "single_part ?s =
     (case py_float V of None \<Rightarrow> None
      | Some val \<Rightarrow> if oper = ''<'' then Some (None, Some val)
                  else if oper = ''>'' then Some (Some val, None) else Some (Some val, Some val))"
    by (simp add: single_part_def)
  have ne: "?s \<noteq> []" using V(1) by simp
  show ?thesis unfolding parse_normal_range_def r s using ne
    by (simp split: option.splits)
qed

lemma parse_plain_shape:
  assumes "no_number pre" "no_operator pre" "number_text V" "no_number post"
  shows "parse_normal_range (pre @ V @ post) = (py_float V, py_float V)"
proof -
  let ?s = "pre @ V @ post"
  have V: "V \<noteq> []" "list_all numch V" using assms(3) by (simp_all add: number_text_def)
  have "range_search ?s = None"
    using assms(1) V(2) assms(4) unfolding no_number_def by (rule range_search_single_value)
  then have r: "range_part ?s = None" by (simp add: range_part_def)
  have pre: "list_all (\<lambda>c. \<not> numch c \<and> \<not> opch c) pre"
    using assms(1,2) unfolding no_number_def no_operator_def by (auto simp: list_all_iff)
  have "single_search ?s = Some ([], V)"
    using pre V no_number_hd[OF assms(4)] by (rule single_search_plain)
  then have s: "single_part ?s =
     (case py_float V of None \<Rightarrow> None | Some val \<Rightarrow> Some (Some val, Some val))"
    by (cases "py_float V") (simp_all add: single_part_def)
  have ne: "?s \<noteq> []" using V(1) by simp
  show ?thesis unfolding parse_normal_range_def r s using ne
    by (cases "py_float V") simp_all
qed

text \<open>
  Claim C6. Normal-range parsing, for every text of one of these shapes: a hyphenated
  pair \<open>A-B\<close> (white space allowed around the hyphen, nothing numeric before it) yields
  \<open>(A, B)\<close>; a single number preceded by the operator \<open><\<close> yields \<open>(None, value)\<close>, preceded
  by \<open>>\<close> yields \<open>(value, None)\<close>, with no operator before it yields \<open>(value, value)\<close>; a text
  with no digit yields \<open>(None, None)\<close>.
\<close>

theorem parse_normal_range_contract:
  "(no_number pre \<and> number_text A \<and> number_text B \<and> spaces ws \<and> spaces ws' \<and>
    (post = [] \<or> \<not> numch (hd post)) \<and> py_float A = Some x \<and> py_float B = Some y
      \<longrightarrow> parse_normal_range (pre @ A @ ws @ ''-'' @ ws' @ B @ post) = (Some x, Some y))
   \<and> (no_number pre \<and> no_operator_end pre \<and> spaces ws \<and> number_text V \<and> no_number post \<and>
      py_float V = Some v
      \<longrightarrow> parse_normal_range (pre @ ''<'' @ ws @ V @ post) = (None, Some v)
        \<and> parse_normal_range (pre @ ''>'' @ ws @ V @ post) = (Some v, None))
   \<and> (no_number pre \<and> no_operator pre \<and> number_text V \<and> no_number post \<and> py_float V = Some v
      \<longrightarrow> parse_normal_range (pre @ V @ post) = (Some v, Some v))
   \<and> (list_all (\<lambda>c. \<not> is_digit c) s \<longrightarrow> parse_normal_range s = (None, None))"
proof (intro conjI impI)
  assume "no_number pre \<and> number_text A \<and> number_text B \<and> spaces ws \<and> spaces ws' \<and>
    (post = [] \<or> \<not> numch (hd post)) \<and> py_float A = Some x \<and> py_float B = Some y"
  then show "parse_normal_range (pre @ A @ ws @ ''-'' @ ws' @ B @ post) = (Some x, Some y)"
    using parse_range_shape[of pre A B ws ws' post x y] by simp
next
  assume h: "no_number pre \<and> no_operator_end pre \<and> spaces ws \<and> number_text V \<and>
    no_number post \<and> py_float V = Some v"
  have lt: "list_all opch ''<''" and gt: "list_all opch ''>''" by (simp_all add: opch_def)
  show "parse_normal_range (pre @ ''<'' @ ws @ V @ post) = (None, Some v)"
    using h lt parse_operator_shape[of pre "''<''" ws V post] by simp
  show "parse_normal_range (pre @ ''>'' @ ws @ V @ post) = (Some v, None)"
    using h gt parse_operator_shape[of pre "''>''" ws V post] by simp
next
  assume "no_number pre \<and> no_operator pre \<and> number_text V \<and> no_number post \<and>
    py_float V = Some v"
  then show "parse_normal_range (pre @ V @ post) = (Some v, Some v)"
    using parse_plain_shape[of pre V post] by simp
next
  assume "list_all (\<lambda>c. \<not> is_digit c) s"
  then show "parse_normal_range s = (None, None)" by (rule parse_no_digit)
qed

text \<open>The examples of the specification, each obtained from the contract above.\<close>

theorem parse_normal_range_contract_witness:
  "parse_normal_range ''< 41 U/L'' = (None, Some 41)
   \<and> parse_normal_range ''135-145 mmol/L'' = (Some 135, Some 145)
   \<and> parse_normal_range ''> 7.0'' = (Some 7, None)
   \<and> parse_normal_range ''garbage'' = (None, None)
   \<and> parse_normal_range ''Target 7.0 mmol/L'' = (Some 7, Some 7)"
proof (intro conjI)
  show "parse_normal_range ''< 41 U/L'' = (None, Some 41)"
    using parse_normal_range_contract
      [where pre = "[]" and ws = "'' ''" and V = "''41''" and post = "'' U/L''" and v = 41]
    by (simp add: no_number_def no_operator_end_def spaces_def number_text_def numch_def
        is_digit_def is_space_def py_float_def mantissa_def is_e_def digits_val_def digit_val_def)
  show "parse_normal_range ''135-145 mmol/L'' = (Some 135, Some 145)"
    using parse_normal_range_contract
      [where pre = "[]" and A = "''135''" and ws = "[]" and ws' = "[]" and B = "''145''"
         and post = "'' mmol/L''" and x = 135 and y = 145]
    by (simp add: no_number_def spaces_def number_text_def numch_def
        is_digit_def is_space_def py_float_def mantissa_def is_e_def digits_val_def digit_val_def)
  show "parse_normal_range ''> 7.0'' = (Some 7, None)"
    using parse_normal_range_contract
      [where pre = "[]" and ws = "'' ''" and V = "''7.0''" and post = "[]" and v = 7]
    by (simp add: no_number_def no_operator_end_def spaces_def number_text_def numch_def
        is_digit_def is_space_def py_float_def mantissa_def is_e_def digits_val_def digit_val_def)
  show "parse_normal_range ''garbage'' = (None, None)"
    using parse_normal_range_contract [where s = "''garbage''"]
    by (simp add: is_digit_def)
  show "parse_normal_range ''Target 7.0 mmol/L'' = (Some 7, Some 7)"
    using parse_normal_range_contract
      [where pre = "''Target ''" and V = "''7.0''" and post = "'' mmol/L''" and v = 7]
    by (simp add: no_number_def no_operator_def number_text_def numch_def opch_def
        is_digit_def py_float_def mantissa_def is_e_def digits_val_def digit_val_def)
qed

text \<open>
  Claim C9. When the single number of a range text is preceded by an operator of two or
  more characters (such as \<open><=\<close> or \<open>>=\<close>), range parsing returns \<open>(value, value)\<close>, the
  exact-target result, not a one-sided bound.
\<close>

theorem multi_char_operator_exact:
  "no_number pre \<and> no_operator_end pre \<and> list_all opch oper \<and> 2 \<le> length oper \<and>
   spaces ws \<and> number_text V \<and> no_number post \<and> py_float V = Some v
     \<longrightarrow> parse_normal_range (pre @ oper @ ws @ V @ post) = (Some v, Some v)"
proof
  assume h: "no_number pre \<and> no_operator_end pre \<and> list_all opch oper \<and> 2 \<le> length oper \<and>
   spaces ws \<and> number_text V \<and> no_number post \<and> py_float V = Some v"
  then have ne: "oper \<noteq> []" "oper \<noteq> ''<''" "oper \<noteq> ''>''" by auto
  show "parse_normal_range (pre @ oper @ ws @ V @ post) = (Some v, Some v)"
    using h ne parse_operator_shape[of pre oper ws V post] by simp
qed

theorem multi_char_operator_exact_witness:
  "parse_normal_range ''<= 5'' = (Some 5, Some 5)
   \<and> parse_normal_range ''>= 7.0 mmol/L'' = (Some 7, Some 7)"
proof (intro conjI)
  show "parse_normal_range ''<= 5'' = (Some 5, Some 5)"
    using multi_char_operator_exact
      [where pre = "[]" and oper = "''<=''" and ws = "'' ''" and V = "''5''" and post = "[]"
         and v = 5]
    by (simp add: no_number_def no_operator_end_def spaces_def number_text_def numch_def opch_def
        is_digit_def is_space_def py_float_def mantissa_def is_e_def digits_val_def digit_val_def)
  show "parse_normal_range ''>= 7.0 mmol/L'' = (Some 7, Some 7)"
    using multi_char_operator_exact
      [where pre = "[]" and oper = "''>=''" and ws = "'' ''" and V = "''7.0''"
         and post = "'' mmol/L''" and v = 7]
    by (simp add: no_number_def no_operator_end_def spaces_def number_text_def numch_def opch_def
        is_digit_def is_space_def py_float_def mantissa_def is_e_def digits_val_def digit_val_def)
qed

section \<open>Properties of the referral classifier\<close>

lemma first_keyword_find:
  "first_keyword m t =
     (case find (\<lambda>(key, pair). contains key t) m of Some (key, pair) \<Rightarrow> Some pair | None \<Rightarrow> None)"
  by (induction m t rule: first_keyword.induct) auto

lemma first_keyword_None:
  "first_keyword m t = None \<longleftrightarrow> \<not> (\<exists>key \<in> set (map fst m). contains key t)"
  by (induction m t rule: first_keyword.induct) auto

lemma first_keyword_matches:
  "first_keyword specialist_map (lower nm) = None \<longleftrightarrow> \<not> matches_keyword nm"
  by (simp only: first_keyword_None matches_keyword_def)

lemma determine_refines: "determine_specialist_type bs = referral_spec bs"
proof (induction bs)
  case Nil
  then show ?case by (simp add: referral_spec_def)
next
  case (Cons e bs)
  obtain nm b where e: "e = (nm, b)" by (cases e)
  show ?case
  proof (cases "abnormal b \<and> matches_keyword nm")
    case True
    then obtain pair where p: "first_keyword specialist_map (lower nm) = Some pair"
      using first_keyword_matches[of nm] by (cases "first_keyword specialist_map (lower nm)") auto
    then have "find (\<lambda>(key, pair). contains key (lower nm)) specialist_map \<noteq> None
       \<and> (case find (\<lambda>(key, pair). contains key (lower nm)) specialist_map of
             Some (key, pair) \<Rightarrow> pair | None \<Rightarrow> default_specialist) = pair"
      unfolding first_keyword_find by (auto split: option.splits)
    then show ?thesis using True p by (simp add: e referral_spec_def)
  next
    case False
    then have "\<not> abnormal b \<or> first_keyword specialist_map (lower nm) = None"
      by (auto simp: first_keyword_matches)
    then have "determine_specialist_type (e # bs) = determine_specialist_type bs"
      by (auto simp: e)
    moreover have "referral_spec (e # bs) = referral_spec bs"
      using False by (auto simp: e referral_spec_def)
    ultimately show ?thesis using Cons by simp
  qed
qed

lemma determine_first_abnormal:
  "find (\<lambda>(nm, b). abnormal b) bs = Some (nm, b) \<Longrightarrow>
   find (\<lambda>(key, pair). contains key (lower nm)) specialist_map = Some (key, pair) \<Longrightarrow>
   determine_specialist_type bs = pair"
proof (induction bs)
  case Nil
  then show ?case by simp
next
  case (Cons e bs)
  obtain nm' b' where e: "e = (nm', b')" by (cases e)
  show ?case
  proof (cases "abnormal b'")
    case True
    then have "nm' = nm" using Cons.prems(1) by (simp add: e)
    then have "first_keyword specialist_map (lower nm') = Some pair"
      using Cons.prems(2) by (simp add: first_keyword_find)
    then show ?thesis using True by (simp add: e)
  next
    case False
    then show ?thesis using Cons by (simp add: e)
  qed
qed

lemma determine_default:
  "\<forall>(nm, b) \<in> set bs. abnormal b \<longrightarrow> \<not> matches_keyword nm \<Longrightarrow>
   determine_specialist_type bs = default_specialist"
proof (induction bs)
  case Nil
  then show ?case by simp
next
  case (Cons e bs)
  obtain nm b where e: "e = (nm, b)" by (cases e)
  have "\<not> abnormal b \<or> first_keyword specialist_map (lower nm) = None"
    using Cons.prems first_keyword_matches[of nm] by (auto simp: e)
  then have "determine_specialist_type (e # bs) = determine_specialist_type bs"
    by (auto simp: e)
  then show ?case using Cons by simp
qed

lemma determine_keys_statuses:
  "map (\<lambda>(nm, b). (nm, status b)) bs = map (\<lambda>(nm, b). (nm, status b)) bs' \<Longrightarrow>
   determine_specialist_type bs = determine_specialist_type bs'"
proof (induction bs arbitrary: bs')
  case Nil
  then show ?case by simp
next
  case (Cons e bs)
  then obtain e' cs where bs': "bs' = e' # cs" by (cases bs') auto
  obtain nm b where e: "e = (nm, b)" by (cases e)
  obtain nm' b' where e': "e' = (nm', b')" by (cases e')
  have eq: "nm = nm'" "status b = status b'" using Cons.prems by (simp_all add: bs' e e')
  have rest: "determine_specialist_type bs = determine_specialist_type cs"
    using Cons by (simp add: bs')
  show ?case using eq rest by (simp add: bs' e e' abnormal_def split: option.splits)
qed

text \<open>
  Claim C5. The classifier equals its description in the specification: the first
  abnormal biomarker whose lower-cased name contains a keyword decides, by the first
  keyword of the ordered table that its name contains, and without such a biomarker the
  default pair is returned. In particular, when the first abnormal biomarker matches a
  keyword the first matching keyword wins, and when no abnormal biomarker matches any
  keyword (also when none is abnormal) the result is the default pair. The name tested
  is the key under which the biomarker is stored: the result depends on the keys and
  the statuses only. The classifier is a function of the mapping alone.
\<close>

theorem determine_specialist_type_contract:
  "determine_specialist_type bs = referral_spec bs
   \<and> (find (\<lambda>(nm, b). abnormal b) bs = Some (nm, b) \<and>
        find (\<lambda>(key, pair). contains key (lower nm)) specialist_map = Some (key, pair)
        \<longrightarrow> determine_specialist_type bs = pair)
   \<and> ((\<forall>(nm, b) \<in> set bs. abnormal b \<longrightarrow> \<not> matches_keyword nm)
        \<longrightarrow> determine_specialist_type bs = default_specialist)
   \<and> (map (\<lambda>(nm, b). (nm, status b)) bs = map (\<lambda>(nm, b). (nm, status b)) bs'
        \<longrightarrow> determine_specialist_type bs = determine_specialist_type bs')"
proof (intro conjI impI)
  show "determine_specialist_type bs = referral_spec bs" by (rule determine_refines)
next
  assume "find (\<lambda>(nm, b). abnormal b) bs = Some (nm, b) \<and>
        find (\<lambda>(key, pair). contains key (lower nm)) specialist_map = Some (key, pair)"
  then show "determine_specialist_type bs = pair" using determine_first_abnormal by blast
next
  assume "\<forall>(nm, b) \<in> set bs. abnormal b \<longrightarrow> \<not> matches_keyword nm"
  then show "determine_specialist_type bs = default_specialist" by (rule determine_default)
next
  assume "map (\<lambda>(nm, b). (nm, status b)) bs = map (\<lambda>(nm, b). (nm, status b)) bs'"
  then show "determine_specialist_type bs = determine_specialist_type bs'"
    by (rule determine_keys_statuses)
qed

text \<open>
  The examples of the specification, and one example per keyword of the table with names
  in mixed case, each obtained from the contract.
\<close>

theorem determine_specialist_type_contract_witness:
  "determine_specialist_type [(''glucose'', reading ''glucose'' ''high''), (''tsh'', reading ''tsh'' ''normal'')]
     = (''Endocrinologist'', ''Diabetes/Glucose Management'')
   \<and> determine_specialist_type [(''glucose'', reading ''glucose'' ''normal'')]
     = (''Primary Care Physician'', ''Abnormal Lab Values'')
   \<and> determine_specialist_type [(''Total Cholesterol'', reading ''x'' ''low'')]
     = (''Cardiologist'', ''High Cholesterol'')
   \<and> determine_specialist_type [(''Serum Creatinine'', reading ''x'' ''critical'')]
     = (''Nephrologist'', ''Kidney Function'')
   \<and> determine_specialist_type [(''HEMOGLOBIN'', reading ''x'' ''low'')]
     = (''Hematologist'', ''Blood Disorders'')
   \<and> determine_specialist_type [(''Sodium'', reading ''x'' ''normal''), (''TSH'', reading ''x'' ''high'')]
     = (''Endocrinologist'', ''Thyroid Function'')
   \<and> determine_specialist_type [(''ALT (SGPT)'', reading ''x'' ''high'')]
     = (''Hepatologist'', ''Liver Function'')
   \<and> determine_specialist_type [(''AST'', reading ''x'' ''high'')]
     = (''Hepatologist'', ''Liver Function'')
   \<and> determine_specialist_type [(''Sodium'', reading ''x'' ''high'')]
     = (''Primary Care Physician'', ''Abnormal Lab Values'')"
proof -
  have first: "find (\<lambda>(nm, b). abnormal b) bs = Some (nm, b) \<and>
        find (\<lambda>(key, pair). contains key (lower nm)) specialist_map = Some (key, pair)
        \<longrightarrow> determine_specialist_type bs = pair" for bs nm b key pair
    by (rule determine_specialist_type_contract [THEN conjunct2, THEN conjunct1])
  have dflt: "(\<forall>(nm, b) \<in> set bs. abnormal b \<longrightarrow> \<not> matches_keyword nm)
        \<longrightarrow> determine_specialist_type bs = default_specialist" for bs
    by (rule determine_specialist_type_contract [THEN conjunct2, THEN conjunct2, THEN conjunct1])
  have e1: "determine_specialist_type [(''glucose'', reading ''glucose'' ''high''), (''tsh'', reading ''tsh'' ''normal'')]
     = (''Endocrinologist'', ''Diabetes/Glucose Management'')"
  proof -
    have "find (\<lambda>(nm, b). abnormal b) [(''glucose'', reading ''glucose'' ''high''), (''tsh'', reading ''tsh'' ''normal'')] = Some (''glucose'', reading ''glucose'' ''high'') \<and>
        find (\<lambda>(key, pair). contains key (lower ''glucose'')) specialist_map = Some (''glucose'', (''Endocrinologist'', ''Diabetes/Glucose Management''))"
      by code_simp
    with first [of "[(''glucose'', reading ''glucose'' ''high''), (''tsh'', reading ''tsh'' ''normal'')]" "''glucose''" "reading ''glucose'' ''high''" "''glucose''" "(''Endocrinologist'', ''Diabetes/Glucose Management'')"]
    show ?thesis by (rule mp)
  qed
  have e2: "determine_specialist_type [(''glucose'', reading ''glucose'' ''normal'')]
     = (''Primary Care Physician'', ''Abnormal Lab Values'')"
  proof -
    have "\<forall>(nm, b) \<in> set [(''glucose'', reading ''glucose'' ''normal'')]. abnormal b \<longrightarrow> \<not> matches_keyword nm"
      by code_simp
    with dflt [of "[(''glucose'', reading ''glucose'' ''normal'')]"]
    have "determine_specialist_type [(''glucose'', reading ''glucose'' ''normal'')] = default_specialist" by (rule mp)
    then show ?thesis by (simp only: default_specialist_def)
  qed
  have e3: "determine_specialist_type [(''Total Cholesterol'', reading ''x'' ''low'')]
     = (''Cardiologist'', ''High Cholesterol'')"
  proof -
    have "find (\<lambda>(nm, b). abnormal b) [(''Total Cholesterol'', reading ''x'' ''low'')] = Some (''Total Cholesterol'', reading ''x'' ''low'') \<and>
        find (\<lambda>(key, pair). contains key (lower ''Total Cholesterol'')) specialist_map = Some (''cholesterol'', (''Cardiologist'', ''High Cholesterol''))"
      by code_simp
    with first [of "[(''Total Cholesterol'', reading ''x'' ''low'')]" "''Total Cholesterol''" "reading ''x'' ''low''" "''cholesterol''" "(''Cardiologist'', ''High Cholesterol'')"]
    show ?thesis by (rule mp)
  qed
  have e4: "determine_specialist_type [(''Serum Creatinine'', reading ''x'' ''critical'')]
     = (''Nephrologist'', ''Kidney Function'')"
  proof -
    have "find (\<lambda>(nm, b). abnormal b) [(''Serum Creatinine'', reading ''x'' ''critical'')] = Some (''Serum Creatinine'', reading ''x'' ''critical'') \<and>
        find (\<lambda>(key, pair). contains key (lower ''Serum Creatinine'')) specialist_map = Some (''creatinine'', (''Nephrologist'', ''Kidney Function''))"
      by code_simp
    with first [of "[(''Serum Creatinine'', reading ''x'' ''critical'')]" "''Serum Creatinine''" "reading ''x'' ''critical''" "''creatinine''" "(''Nephrologist'', ''Kidney Function'')"]
    show ?thesis by (rule mp)
  qed
  have e5: "determine_specialist_type [(''HEMOGLOBIN'', reading ''x'' ''low'')]
     = (''Hematologist'', ''Blood Disorders'')"
  proof -
    have "find (\<lambda>(nm, b). abnormal b) [(''HEMOGLOBIN'', reading ''x'' ''low'')] = Some (''HEMOGLOBIN'', reading ''x'' ''low'') \<and>
        find (\<lambda>(key, pair). contains key (lower ''HEMOGLOBIN'')) specialist_map = Some (''hemoglobin'', (''Hematologist'', ''Blood Disorders''))"
      by code_simp
    with first [of "[(''HEMOGLOBIN'', reading ''x'' ''low'')]" "''HEMOGLOBIN''" "reading ''x'' ''low''" "''hemoglobin''" "(''Hematologist'', ''Blood Disorders'')"]
    show ?thesis by (rule mp)
  qed
  have e6: "determine_specialist_type [(''Sodium'', reading ''x'' ''normal''), (''TSH'', reading ''x'' ''high'')]
     = (''Endocrinologist'', ''Thyroid Function'')"
  proof -
    have "find (\<lambda>(nm, b). abnormal b) [(''Sodium'', reading ''x'' ''normal''), (''TSH'', reading ''x'' ''high'')] = Some (''TSH'', reading ''x'' ''high'') \<and>
        find (\<lambda>(key, pair). contains key (lower ''TSH'')) specialist_map = Some (''tsh'', (''Endocrinologist'', ''Thyroid Function''))"
      by code_simp
    with first [of "[(''Sodium'', reading ''x'' ''normal''), (''TSH'', reading ''x'' ''high'')]" "''TSH''" "reading ''x'' ''high''" "''tsh''" "(''Endocrinologist'', ''Thyroid Function'')"]
    show ?thesis by (rule mp)
  qed
  have e7: "determine_specialist_type [(''ALT (SGPT)'', reading ''x'' ''high'')]
     = (''Hepatologist'', ''Liver Function'')"
  proof -
    have "find (\<lambda>(nm, b). abnormal b) [(''ALT (SGPT)'', reading ''x'' ''high'')] = Some (''ALT (SGPT)'', reading ''x'' ''high'') \<and>
        find (\<lambda>(key, pair). contains key (lower ''ALT (SGPT)'')) specialist_map = Some (''alt'', (''Hepatologist'', ''Liver Function''))"
      by code_simp
    with first [of "[(''ALT (SGPT)'', reading ''x'' ''high'')]" "''ALT (SGPT)''" "reading ''x'' ''high''" "''alt''" "(''Hepatologist'', ''Liver Function'')"]
    show ?thesis by (rule mp)
  qed
  have e8: "determine_specialist_type [(''AST'', reading ''x'' ''high'')]
     = (''Hepatologist'', ''Liver Function'')"
  proof -
    have "find (\<lambda>(nm, b). abnormal b) [(''AST'', reading ''x'' ''high'')] = Some (''AST'', reading ''x'' ''high'') \<and>
        find (\<lambda>(key, pair). contains key (lower ''AST'')) specialist_map = Some (''ast'', (''Hepatologist'', ''Liver Function''))"
      by code_simp
    with first [of "[(''AST'', reading ''x'' ''high'')]" "''AST''" "reading ''x'' ''high''" "''ast''" "(''Hepatologist'', ''Liver Function'')"]
    show ?thesis by (rule mp)
  qed
  have e9: "determine_specialist_type [(''Sodium'', reading ''x'' ''high'')]
     = (''Primary Care Physician'', ''Abnormal Lab Values'')"
  proof -
    have "\<forall>(nm, b) \<in> set [(''Sodium'', reading ''x'' ''high'')]. abnormal b \<longrightarrow> \<not> matches_keyword nm"
      by code_simp
    with dflt [of "[(''Sodium'', reading ''x'' ''high'')]"]
    have "determine_specialist_type [(''Sodium'', reading ''x'' ''high'')] = default_specialist" by (rule mp)
    then show ?thesis by (simp only: default_specialist_def)
  qed
  show ?thesis by (intro conjI e1 e2 e3 e4 e5 e6 e7 e8 e9)
qed

section \<open>Properties of the extractor\<close>

lemma parse_biomarkers_returns:
  "parse_biomarkers loads resp = Inr (snd (parse_try loads resp))"
  unfolding parse_biomarkers_def
  by (cases "parse_try loads resp") (auto split: option.splits exn.splits)

lemma parse_biomarkers_no_candidate:
  "candidate resp = None \<Longrightarrow> parse_biomarkers loads resp = Inr []"
  by (simp add: parse_biomarkers_returns parse_try_def)

lemma parse_biomarkers_decode_error:
  "candidate resp = Some js \<Longrightarrow> decode_payload loads (first_repair js) = Inl e \<Longrightarrow>
   parse_biomarkers loads resp = Inr []"
  by (simp add: parse_biomarkers_returns parse_try_def)

lemma parse_biomarkers_object:
  "candidate resp = Some js \<Longrightarrow> decode_payload loads (first_repair js) = Inr (JObject items) \<Longrightarrow>
   parse_biomarkers loads resp = Inr (snd (build_entries items []))"
  by (simp add: parse_biomarkers_returns parse_try_def)

lemma decode_payload_first:
  "loads js = Inr data \<Longrightarrow> decode_payload loads js = Inr data"
  by (simp add: decode_payload_def)

text \<open>The loop over entries that convert or are skipped.\<close>

lemma build_entries_step:
  "harmless entry \<Longrightarrow>
   build_entries (entry # rest) acc =
     build_entries rest (case converted entry of None \<Rightarrow> acc | Some (key, b) \<Rightarrow> dict_set acc key b)"
proof -
  assume h: "harmless entry"
  obtain key x where e: "entry = (key, x)" by (cases entry)
  show ?thesis
  proof (cases x)
    case (JObject v)
    then show ?thesis using h unfolding e harmless_def converted_def
      by (cases "make_biomarker key v") simp_all
  qed (simp_all add: e converted_def)
qed

lemma foldl_map_filter_Cons:
  "foldl f acc (List.map_filter g (x # xs)) =
     foldl f (case g x of None \<Rightarrow> acc | Some y \<Rightarrow> f acc y) (List.map_filter g xs)"
  by (cases "g x") (simp_all add: List.map_filter_simps)

lemma build_entries_prefix:
  "list_all harmless pre \<Longrightarrow>
   build_entries (pre @ rest) acc =
     build_entries rest (foldl (\<lambda>acc (key, b). dict_set acc key b) acc (List.map_filter converted pre))"
proof (induction pre arbitrary: acc)
  case Nil
  then show ?case by (simp add: List.map_filter_simps)
next
  case (Cons entry pre)
  have h: "harmless entry" "list_all harmless pre" using Cons.prems by simp_all
  show ?case
    unfolding append_Cons build_entries_step[OF h(1)] Cons.IH[OF h(2)] foldl_map_filter_Cons
    by (cases "converted entry") (auto split: prod.splits)
qed

lemma build_entries_raise:
  assumes "list_all harmless pre" "make_biomarker key v = Inl e"
  shows "build_entries (pre @ (key, JObject v) # post) [] = (Some e, built pre)"
  unfolding build_entries_prefix[OF assms(1)] built_def using assms(2) by simp

lemma build_entries_all:
  assumes "list_all harmless items"
  shows "build_entries items [] = (None, built items)"
  using build_entries_prefix[OF assms, of "[]" "[]"] unfolding built_def by simp

lemma status_not_text:
  assumes "get2 v ''Status'' ''status'' (JString ''normal'') = x" "\<forall>t. x \<noteq> JString t"
  shows "make_biomarker key v = Inl AttributeError"
  using assms unfolding make_biomarker_def Let_def by (cases x) simp_all

lemma dict_set_keys: "fst ` set (dict_set d k v) = insert k (fst ` set d)"
  by (induction d k v rule: dict_set.induct) auto

lemma foldl_dict_set_keys:
  "fst ` set (foldl (\<lambda>acc (key, b). dict_set acc key b) acc kbs)
     = fst ` set acc \<union> fst ` set kbs"
proof (induction kbs arbitrary: acc)
  case Nil
  then show ?case by simp
next
  case (Cons kb kbs)
  obtain k b where kb: "kb = (k, b)" by (cases kb)
  show ?case unfolding kb by (simp add: Cons.IH dict_set_keys)
qed

lemma converted_key: "converted entry = Some (k, b) \<Longrightarrow> fst entry = k"
  unfolding converted_def by (auto split: prod.splits json.splits sum.splits)

lemma built_keys: "fst ` set (built items) = fst ` {e \<in> set items. converted e \<noteq> None}"
proof -
  have "fst ` set (List.map_filter converted items) = fst ` {e \<in> set items. converted e \<noteq> None}"
  proof (rule set_eqI, rule iffI)
    fix k assume "k \<in> fst ` set (List.map_filter converted items)"
    then obtain b where "(k, b) \<in> set (List.map_filter converted items)" by auto
    then obtain e where e: "e \<in> set items" "converted e = Some (k, b)"
      by (auto simp: List.map_filter_def)
    then have "fst e = k" using converted_key by blast
    then show "k \<in> fst ` {e \<in> set items. converted e \<noteq> None}" using e by force
  next
    fix k assume "k \<in> fst ` {e \<in> set items. converted e \<noteq> None}"
    then obtain e where e: "e \<in> set items" "converted e \<noteq> None" "fst e = k" by auto
    then obtain k' b where c: "converted e = Some (k', b)" by (cases "converted e") auto
    then have "k' = k" using converted_key e(3) by blast
    then have "(k, b) \<in> set (List.map_filter converted items)"
      using e(1) c by (force simp: List.map_filter_def)
    then show "k \<in> fst ` set (List.map_filter converted items)" by force
  qed
  then show ?thesis unfolding built_def foldl_dict_set_keys by simp
qed

text \<open>
  Claim C3. For every decoder and every response text the extractor returns a mapping
  and no exception leaves it. When no payload is found, and when every attempt to parse
  the payload fails, the mapping returned is empty. For the truncated response of the
  specification the text handed to the decoder is the response with two closing braces
  appended, and when the decoder returns the data of that text the biomarker K with the
  value 5.8 and the status "high" is recovered.
\<close>

theorem parse_biomarkers_total:
  "(\<exists>bm. parse_biomarkers loads resp = Inr bm)
   \<and> (candidate resp = None \<longrightarrow> parse_biomarkers loads resp = Inr [])
   \<and> (candidate resp = Some js \<and> decode_payload loads (first_repair js) = Inl e
        \<longrightarrow> parse_biomarkers loads resp = Inr [])
   \<and> candidate truncated_response = Some truncated_response
   \<and> first_repair truncated_response = truncated_response @ ''}}''
   \<and> (loads (truncated_response @ ''}}'') = Inr potassium_data
        \<longrightarrow> parse_biomarkers loads truncated_response = Inr [(''K'', potassium_reading)])
   \<and> parse_biomarkers loads_unterminated unterminated_response
        = Inr [(''K'', potassium_reading\<lparr>status := ''hi''\<rparr>)]
   \<and> candidate fenced_response = Some fenced_payload
   \<and> first_repair fenced_payload = fenced_clean"
proof (intro conjI impI)
  show "parse_biomarkers loads_unterminated unterminated_response
        = Inr [(''K'', potassium_reading\<lparr>status := ''hi''\<rparr>)]"
    by code_simp
  show "candidate fenced_response = Some fenced_payload" by code_simp
  show "first_repair fenced_payload = fenced_clean" by code_simp
next
  show "\<exists>bm. parse_biomarkers loads resp = Inr bm"
    using parse_biomarkers_returns by blast
next
  assume "candidate resp = None"
  then show "parse_biomarkers loads resp = Inr []" by (rule parse_biomarkers_no_candidate)
next
  assume "candidate resp = Some js \<and> decode_payload loads (first_repair js) = Inl e"
  then show "parse_biomarkers loads resp = Inr []"
    using parse_biomarkers_decode_error by blast
next
  show c: "candidate truncated_response = Some truncated_response" by code_simp
  show r: "first_repair truncated_response = truncated_response @ ''}}''" by code_simp
  assume l: "loads (truncated_response @ ''}}'') = Inr potassium_data"
  have d: "decode_payload loads (first_repair truncated_response) =
      Inr (JObject [(''K'', JObject [(''Name'', JString ''K''), (''Value'', JString ''5.8 mmol/L''),
                               (''Status'', JString ''high'')])])"
    unfolding r using l by (simp add: decode_payload_first potassium_data_def)
  have b: "snd (build_entries [(''K'', JObject [(''Name'', JString ''K''),
              (''Value'', JString ''5.8 mmol/L''), (''Status'', JString ''high'')])] [])
      = [(''K'', potassium_reading)]"
    by code_simp
  show "parse_biomarkers loads truncated_response = Inr [(''K'', potassium_reading)]"
    using parse_biomarkers_object[OF c d] b by simp
qed

theorem parse_biomarkers_total_witness:
  "parse_biomarkers loads_truncated truncated_response = Inr [(''K'', potassium_reading)]
   \<and> parse_biomarkers loads_broken broken_response = Inr []
   \<and> parse_biomarkers loads_broken ''no payload here'' = Inr []"
proof (intro conjI)
  have "loads_truncated (truncated_response @ ''}}'') = Inr potassium_data"
    by (simp add: loads_truncated_def)
  with parse_biomarkers_total[where loads = loads_truncated, THEN conjunct2, THEN conjunct2,
         THEN conjunct2, THEN conjunct2, THEN conjunct2, THEN conjunct1]
  show "parse_biomarkers loads_truncated truncated_response = Inr [(''K'', potassium_reading)]"
    by (rule mp)
next
  have "candidate broken_response = Some broken_response
      \<and> decode_payload loads_broken (first_repair broken_response)
          = Inl (JSONDecodeError ''Expecting value'' 6)"
    by code_simp
  with parse_biomarkers_total[where loads = loads_broken and resp = broken_response
         and js = broken_response and e = "JSONDecodeError ''Expecting value'' 6",
         THEN conjunct2, THEN conjunct2, THEN conjunct1]
  show "parse_biomarkers loads_broken broken_response = Inr []"
    by (rule mp)
next
  have "candidate ''no payload here'' = None" by code_simp
  with parse_biomarkers_total[where loads = loads_broken and resp = "''no payload here''",
         THEN conjunct2, THEN conjunct1]
  show "parse_biomarkers loads_broken ''no payload here'' = Inr []"
    by (rule mp)
qed

text \<open>
  Claim C10. When the payload parses to an object, the result is the mapping that the loop
  over its entries has built when it ends. If the conversion of an entry raises (as it does
  with \<open>AttributeError\<close> when the status is not a text) and the entries before it convert or
  are not objects, the exception is caught and the result is the mapping of the converted
  entries before it: entries that are not objects are skipped, the keys of the result are
  the keys of the converted entries, so the result is not empty when one entry before the
  failure converts, and it lacks the failing entry when its key is not among the keys
  before it. When no conversion raises, every converted entry is returned.
\<close>

theorem parse_biomarkers_partial:
  "(candidate resp = Some js \<and> decode_payload loads (first_repair js) = Inr (JObject items)
      \<and> items = pre @ (key, JObject v) # post \<and> list_all harmless pre
      \<and> make_biomarker key v = Inl e
      \<longrightarrow> parse_biomarkers loads resp = Inr (built pre))
   \<and> (candidate resp = Some js \<and> decode_payload loads (first_repair js) = Inr (JObject items)
      \<and> list_all harmless items
      \<longrightarrow> parse_biomarkers loads resp = Inr (built items))
   \<and> (get2 v ''Status'' ''status'' (JString ''normal'') = x \<and> (\<forall>t. x \<noteq> JString t)
      \<longrightarrow> make_biomarker key v = Inl AttributeError)
   \<and> ((\<forall>f. x \<noteq> JObject f) \<longrightarrow> harmless (key, x) \<and> converted (key, x) = None)
   \<and> fst ` set (built pre) = fst ` {entry \<in> set pre. converted entry \<noteq> None}
   \<and> ((\<exists>entry \<in> set pre. converted entry \<noteq> None) \<longrightarrow> built pre \<noteq> [])
   \<and> (key \<notin> fst ` set pre \<longrightarrow> key \<notin> fst ` set (built pre))"
proof (intro conjI impI)
  assume a: "candidate resp = Some js \<and> decode_payload loads (first_repair js) = Inr (JObject items)
      \<and> items = pre @ (key, JObject v) # post \<and> list_all harmless pre
      \<and> make_biomarker key v = Inl e"
  then have "build_entries items [] = (Some e, built pre)"
    using build_entries_raise by blast
  then show "parse_biomarkers loads resp = Inr (built pre)"
    using a parse_biomarkers_object[of resp js loads items] by simp
next
  assume a: "candidate resp = Some js \<and> decode_payload loads (first_repair js) = Inr (JObject items)
      \<and> list_all harmless items"
  then have "build_entries items [] = (None, built items)"
    using build_entries_all by blast
  then show "parse_biomarkers loads resp = Inr (built items)"
    using a parse_biomarkers_object[of resp js loads items] by simp
next
  assume "get2 v ''Status'' ''status'' (JString ''normal'') = x \<and> (\<forall>t. x \<noteq> JString t)"
  then show "make_biomarker key v = Inl AttributeError"
    using status_not_text by blast
next
  assume a: "\<forall>f. x \<noteq> JObject f"
  show "harmless (key, x)" using a unfolding harmless_def by (cases x) simp_all
  show "converted (key, x) = None" using a unfolding converted_def by (cases x) simp_all
next
  show "fst ` set (built pre) = fst ` {entry \<in> set pre. converted entry \<noteq> None}"
    by (rule built_keys)
next
  assume "\<exists>entry \<in> set pre. converted entry \<noteq> None"
  then have "fst ` set (built pre) \<noteq> {}" unfolding built_keys by blast
  then show "built pre \<noteq> []" by auto
next
  assume "key \<notin> fst ` set pre"
  then show "key \<notin> fst ` set (built pre)" unfolding built_keys by blast
qed

theorem parse_biomarkers_partial_witness:
  "parse_biomarkers loads_partial partial_response = Inr [(''Na'', sodium_reading)]
   \<and> make_biomarker ''K'' [(''Value'', JString ''5.8 mmol/L''), (''Status'', JNumber 5)]
       = Inl AttributeError"
proof (intro conjI)
  have s: "get2 [(''Value'', JString ''5.8 mmol/L''), (''Status'', JNumber 5)]
            ''Status'' ''status'' (JString ''normal'') = JNumber 5
          \<and> (\<forall>t. JNumber 5 \<noteq> JString t)"
    by (simp add: get2_def dict_get_def)
  with parse_biomarkers_partial[where v = "[(''Value'', JString ''5.8 mmol/L''), (''Status'', JNumber 5)]"
         and x = "JNumber 5" and key = "''K''",
         THEN conjunct2, THEN conjunct2, THEN conjunct1]
  show k: "make_biomarker ''K'' [(''Value'', JString ''5.8 mmol/L''), (''Status'', JNumber 5)]
       = Inl AttributeError"
    by (rule mp)
  have c: "candidate partial_response = Some partial_response" by code_simp
  have r: "first_repair partial_response = partial_response" by code_simp
  have d: "decode_payload loads_partial (first_repair partial_response) = Inr (JObject partial_data)"
    unfolding r by (simp add: decode_payload_def loads_partial_def)
  have split: "partial_data = take 2 partial_data @
       (''K'', JObject [(''Value'', JString ''5.8 mmol/L''), (''Status'', JNumber 5)]) #
       drop 3 partial_data"
    by (simp add: partial_data_def)
  have h: "list_all harmless (take 2 partial_data)" by code_simp
  from parse_biomarkers_partial[where resp = partial_response and js = partial_response
         and loads = loads_partial and items = partial_data and pre = "take 2 partial_data"
         and key = "''K''" and v = "[(''Value'', JString ''5.8 mmol/L''), (''Status'', JNumber 5)]"
         and post = "drop 3 partial_data" and e = AttributeError, THEN conjunct1]
    c d split h k
  have "parse_biomarkers loads_partial partial_response = Inr (built (take 2 partial_data))"
    by blast
  moreover have "built (take 2 partial_data) = [(''Na'', sodium_reading)]" by code_simp
  ultimately show "parse_biomarkers loads_partial partial_response = Inr [(''Na'', sodium_reading)]"
    by simp
qed

section \<open>Properties of the pipeline\<close>

lemma interpret_lab_node_eq:
  "interpret_lab_node env s =
     (case llm_respond env (redacted_text s) of
        Inl e \<Rightarrow> Inl e
      | Inr content \<Rightarrow>
          Inr (s\<lparr>biomarkers := snd (parse_try (json_loads env) content),
                 lab_interpreted := True,
                 specialist_needed := list_ex (\<lambda>(k, b). abnormal b) (snd (parse_try (json_loads env) content)),
                 specialist_type :=
                   map_option fst
                     (if list_ex (\<lambda>(k, b). abnormal b) (snd (parse_try (json_loads env) content))
                      then Some (determine_specialist_type (snd (parse_try (json_loads env) content)))
                      else None),
                 specialist_condition :=
                   map_option snd
                     (if list_ex (\<lambda>(k, b). abnormal b) (snd (parse_try (json_loads env) content))
                      then Some (determine_specialist_type (snd (parse_try (json_loads env) content)))
                      else None),
                 interpretation_summary :=
                   Some (summary_text (snd (parse_try (json_loads env) content)) content),
                 updated_at := clock_now env At_interpreter\<rparr>))"
  unfolding interpret_lab_node_def parse_biomarkers_returns Let_def
  by (simp split: sum.splits)

lemma interpret_lab_node_fields:
  assumes "interpret_lab_node env s = Inr s1"
  shows "lab_interpreted s1"
    and "specialist_results s1 = specialist_results s"
    and "specialist_search_approved s1 = specialist_search_approved s"
    and "patient_zip s1 = patient_zip s"
    and "\<exists>content. llm_respond env (redacted_text s) = Inr content
           \<and> parse_biomarkers (json_loads env) content = Inr (biomarkers s1)
           \<and> interpretation_summary s1 = Some (summary_text (biomarkers s1) content)"
  using assms unfolding interpret_lab_node_eq parse_biomarkers_returns
  by (auto split: sum.splits)

lemma scout_fields:
  "lab_interpreted (specialist_scout_node env s) = lab_interpreted s"
  "biomarkers (specialist_scout_node env s) = biomarkers s"
  "interpretation_summary (specialist_scout_node env s) = interpretation_summary s"
  "specialist_search_approved (specialist_scout_node env s) = specialist_search_approved s"
  unfolding specialist_scout_node_def
  by (auto split: option.splits sum.splits)

lemma scout_not_approved:
  "\<not> specialist_search_approved s \<Longrightarrow> specialist_scout_node env s = s"
  unfolding specialist_scout_node_def by simp

lemma audit_fields:
  "safety_approved (safety_audit_node env s)"
  "medical_disclaimer (safety_audit_node env s) = Some disclaimer"
  "lab_interpreted (safety_audit_node env s) = lab_interpreted s"
  "biomarkers (safety_audit_node env s) = biomarkers s"
  "interpretation_summary (safety_audit_node env s) = interpretation_summary s"
  "specialist_results (safety_audit_node env s) = specialist_results s"
  "specialist_search_approved (safety_audit_node env s) = specialist_search_approved s"
  unfolding safety_audit_node_def by simp_all

text \<open>The updates that a run of the graph streams.\<close>

lemma graph_stream_failure:
  "interpret_lab_node env s = Inl e \<Longrightarrow> graph_stream env s = ([(Init, s)], Some e)"
  unfolding graph_stream_def by simp

lemma graph_stream_success:
  "interpret_lab_node env s = Inr s1 \<Longrightarrow>
   graph_stream env s =
     (if specialist_needed s1
      then [(Init, s), (Interpreter, s1), (Specialist_scout, specialist_scout_node env s1),
            (Safety_audit, safety_audit_node env (specialist_scout_node env s1))]
      else [(Init, s), (Interpreter, s1), (Safety_audit, safety_audit_node env s1)], None)"
  unfolding graph_stream_def should_search_specialist_def Let_def by simp

lemma graph_stream_None:
  assumes "graph_stream env s = (us, None)"
  shows "\<exists>s1. interpret_lab_node env s = Inr s1 \<and>
     (us = [(Init, s), (Interpreter, s1), (Safety_audit, safety_audit_node env s1)] \<or>
      us = [(Init, s), (Interpreter, s1), (Specialist_scout, specialist_scout_node env s1),
            (Safety_audit, safety_audit_node env (specialist_scout_node env s1))])"
proof (cases "interpret_lab_node env s")
  case (Inl e)
  then show ?thesis using assms by (simp add: graph_stream_failure)
next
  case (Inr s1)
  then show ?thesis using assms by (auto simp: graph_stream_success split: if_splits)
qed

lemma run_completed:
  assumes "run_interpretation env store sid = (Inr (Completed st), store')"
  shows "\<exists>s us. store sid = Some s \<and> \<not> lab_interpreted s \<and> graph_stream env s = (us, None)
           \<and> us \<noteq> [] \<and> st = snd (last us) \<and> store' = store(sid \<mapsto> st)"
  using assms unfolding run_interpretation_def get_state_def checkpoint_def
  by (auto split: option.splits if_splits prod.splits)

lemma run_completed_state:
  assumes "run_interpretation env store sid = (Inr (Completed st), store')"
  shows "store' sid = Some st" and "lab_interpreted st" and "safety_approved st"
    and "medical_disclaimer st = Some disclaimer"
proof -
  obtain s us where a: "store sid = Some s" "graph_stream env s = (us, None)"
      "st = snd (last us)" "store' = store(sid \<mapsto> st)"
    using run_completed[OF assms] by blast
  obtain s1 where s1: "interpret_lab_node env s = Inr s1"
     "us = [(Init, s), (Interpreter, s1), (Safety_audit, safety_audit_node env s1)] \<or>
      us = [(Init, s), (Interpreter, s1), (Specialist_scout, specialist_scout_node env s1),
            (Safety_audit, safety_audit_node env (specialist_scout_node env s1))]"
    using graph_stream_None[OF a(2)] by blast
  have li: "lab_interpreted s1" using interpret_lab_node_fields(1)[OF s1(1)] .
  show "store' sid = Some st" using a(4) by simp
  show "lab_interpreted st" using s1(2) a(3) li by (auto simp: audit_fields scout_fields)
  show "safety_approved st" using s1(2) a(3) by (auto simp: audit_fields)
  show "medical_disclaimer st = Some disclaimer" using s1(2) a(3) by (auto simp: audit_fields)
qed

lemma run_already:
  "store sid = Some s \<Longrightarrow> lab_interpreted s \<Longrightarrow>
   run_interpretation env store sid = (Inr Already_completed, store)"
  unfolding run_interpretation_def get_state_def by simp

lemma run_completes:
  assumes "store sid = Some s" "\<not> lab_interpreted s" "llm_respond env (redacted_text s) = Inr content"
  shows "\<exists>st. run_interpretation env store sid = (Inr (Completed st), store(sid \<mapsto> st))"
proof -
  obtain s1 where s1: "interpret_lab_node env s = Inr s1"
    using assms(3) unfolding interpret_lab_node_eq by simp
  show ?thesis
    using assms(1,2) unfolding run_interpretation_def get_state_def checkpoint_def
    by (simp add: graph_stream_success[OF s1])
qed

lemma digits_val_snoc: "digits_val (ds @ [c]) = 10 * digits_val ds + digit_val c"
  by (simp add: digits_val_def)

lemma digit_char_props:
  "d < 10 \<Longrightarrow> digit_val (digit_char d) = d \<and> is_digit (digit_char d)"
proof -
  assume "d < 10"
  then have "d \<in> {0, 1, 2, 3, 4, 5, 6, 7, 8, 9}" by auto
  then show ?thesis
    by (auto simp: digit_char_def digit_val_def is_digit_def)
qed

lemma show_nat_decimal: "digits_val (show_nat n) = n \<and> list_all is_digit (show_nat n)"
proof (induction n rule: show_nat.induct)
  case (1 n)
  show ?case
  proof (cases "n < 10")
    case True
    then show ?thesis
      using digit_char_props[of n] by (simp add: show_nat.simps[of n] digits_val_def)
  next
    case False
    have d: "digit_val (digit_char (n mod 10)) = n mod 10 \<and> is_digit (digit_char (n mod 10))"
      by (rule digit_char_props) simp
    have ih: "digits_val (show_nat (n div 10)) = n div 10 \<and> list_all is_digit (show_nat (n div 10))"
      using 1 False by simp
    show ?thesis
      using False d ih by (simp add: show_nat.simps[of n] digits_val_snoc)
  qed
qed

text \<open>
  Claim C1. A run on a session whose \<open>lab_interpreted\<close> flag is true answers "already
  completed" and leaves every stored session as it was, so the stored biomarkers and
  summary are unchanged; in particular a call of \<open>run\<close> that follows a call that completed
  the interpretation is such a call, whatever the collaborators would answer then.
\<close>

theorem run_interpretation_idempotent:
  "(store sid = Some s \<and> lab_interpreted s
      \<longrightarrow> run_interpretation env store sid = (Inr Already_completed, store))
   \<and> (run_interpretation env store sid = (Inr (Completed st), store')
      \<longrightarrow> store' sid = Some st
        \<and> run_interpretation env' store' sid = (Inr Already_completed, store'))"
proof (intro conjI impI)
  assume "store sid = Some s \<and> lab_interpreted s"
  then show "run_interpretation env store sid = (Inr Already_completed, store)"
    using run_already by blast
next
  assume a: "run_interpretation env store sid = (Inr (Completed st), store')"
  show "store' sid = Some st" using run_completed_state(1)[OF a] .
  show "run_interpretation env' store' sid = (Inr Already_completed, store')"
    using run_completed_state(1,2)[OF a] by (rule run_already)
qed

theorem run_interpretation_idempotent_witness:
  "run_interpretation (answering short_response)
     (Map.empty(''s1'' \<mapsto> referred)) ''s1''
     = (Inr Already_completed, Map.empty(''s1'' \<mapsto> referred))
   \<and> run_interpretation (answering short_response)
        (snd (run_interpretation (answering glucose_response)
               (set_state Map.empty ''s1'' uploaded_zip) ''s1'')) ''s1''
     = (Inr Already_completed,
        snd (run_interpretation (answering glucose_response)
               (set_state Map.empty ''s1'' uploaded_zip) ''s1''))"
proof
  have "(Map.empty(''s1'' \<mapsto> referred)) ''s1'' = Some referred \<and> lab_interpreted referred"
    by (simp add: referred_def)
  with run_interpretation_idempotent
         [where store = "Map.empty(''s1'' \<mapsto> referred)" and sid = "''s1''" and s = referred
            and env = "answering short_response", THEN conjunct1]
  show "run_interpretation (answering short_response)
     (Map.empty(''s1'' \<mapsto> referred)) ''s1''
     = (Inr Already_completed, Map.empty(''s1'' \<mapsto> referred))"
    by (rule mp)
next
  let ?store0 = "set_state Map.empty ''s1'' uploaded_zip"
  have "\<exists>st. run_interpretation (answering glucose_response) ?store0 ''s1''
          = (Inr (Completed st), ?store0(''s1'' \<mapsto> st))"
    by (rule run_completes[where s = uploaded_zip and content = glucose_response])
       (simp_all add: set_state_def checkpoint_def uploaded_zip_def uploaded_def answering_def)
  then obtain st where r:
    "run_interpretation (answering glucose_response) ?store0 ''s1''
          = (Inr (Completed st), ?store0(''s1'' \<mapsto> st))" by blast
  from run_interpretation_idempotent
         [where env = "answering glucose_response" and store = ?store0 and sid = "''s1''"
            and st = st and store' = "?store0(''s1'' \<mapsto> st)"
            and env' = "answering short_response", THEN conjunct2] r
  have "run_interpretation (answering short_response) (?store0(''s1'' \<mapsto> st)) ''s1''
          = (Inr Already_completed, ?store0(''s1'' \<mapsto> st))"
    by blast
  then show "run_interpretation (answering short_response)
        (snd (run_interpretation (answering glucose_response) ?store0 ''s1'')) ''s1''
     = (Inr Already_completed, snd (run_interpretation (answering glucose_response) ?store0 ''s1''))"
    by (simp only: r snd_conv)
qed

text \<open>
  Claim C2 fails on the code. \<open>approve_specialist_search\<close> hands the state to
  \<open>graph.ainvoke\<close>, and a run on an input starts at the entry point: the interpretation
  stage runs again before the lookup stage. Here a session is interpreted (one abnormal
  glucose reading, an endocrinologist is needed), then the search is approved and the
  model, asked again, answers with a text that holds no payload: the approval replaces
  the biomarkers, the summary and the referral, and no lookup is made.
\<close>

theorem approve_reruns_interpretation:
  "(let store1 = snd (run_interpretation (answering glucose_response)
                       (set_state Map.empty ''s1'' uploaded_zip) ''s1'');
        store2 = snd (approve_specialist_search (answering short_response) store1 ''s1'')
    in (map_option (\<lambda>st. (biomarkers st, interpretation_summary st, specialist_needed st,
                          specialist_type st, specialist_condition st)) (store1 ''s1''),
        map_option (\<lambda>st. (biomarkers st, interpretation_summary st, specialist_needed st,
                          specialist_type st, specialist_condition st,
                          specialist_search_approved st, specialist_results st)) (store2 ''s1'')))
   = (Some ([(''Glucose'', glucose_reading)],
            Some ''Successfully analyzed 1 biomarker(s). 1 value(s) require attention.'',
            True, Some ''Endocrinologist'', Some ''Diabetes/Glucose Management''),
      Some ([], Some ''Unable to read the report.'', False, None, None, True, []))"
  by code_simp

text \<open>
  Claim C4. The specialist-lookup stage returns the session unchanged unless the search
  is approved and both \<open>specialist_type\<close> and \<open>patient_zip\<close> are present; a failure of the
  search leaves the session unchanged as well; a successful search replaces the list of
  results. Consequently a run on a session that is not approved leaves
  \<open>specialist_results\<close> as it was (empty, for a session that never had results), in the
  reply and in the store.
\<close>

theorem specialist_scout_gate:
  "(\<not> (specialist_search_approved s \<and> present (specialist_type s) \<and> present (patient_zip s))
      \<longrightarrow> specialist_scout_node env s = s)
   \<and> (specialist_type s = Some ty \<and> patient_zip s = Some zc \<and>
       scout_search env ty zc (specialist_condition s) = Inl e
      \<longrightarrow> specialist_scout_node env s = s)
   \<and> (specialist_search_approved s \<and> specialist_type s = Some ty \<and> ty \<noteq> [] \<and>
       patient_zip s = Some zc \<and> zc \<noteq> [] \<and>
       scout_search env ty zc (specialist_condition s) = Inr results
      \<longrightarrow> specialist_scout_node env s =
            s\<lparr>specialist_results := results, updated_at := clock_now env At_scout\<rparr>)
   \<and> (store sid = Some s \<and> \<not> specialist_search_approved s
      \<longrightarrow> map_option specialist_results (snd (run_interpretation env store sid) sid)
            = Some (specialist_results s)
        \<and> (\<forall>st. fst (run_interpretation env store sid) = Inr (Completed st)
              \<longrightarrow> specialist_results st = specialist_results s))"
proof (intro conjI impI allI)
  assume "\<not> (specialist_search_approved s \<and> present (specialist_type s) \<and> present (patient_zip s))"
  then show "specialist_scout_node env s = s"
    unfolding specialist_scout_node_def present_def by (auto split: option.splits)
next
  assume "specialist_type s = Some ty \<and> patient_zip s = Some zc \<and>
       scout_search env ty zc (specialist_condition s) = Inl e"
  then show "specialist_scout_node env s = s"
    unfolding specialist_scout_node_def by simp
next
  assume "specialist_search_approved s \<and> specialist_type s = Some ty \<and> ty \<noteq> [] \<and>
       patient_zip s = Some zc \<and> zc \<noteq> [] \<and>
       scout_search env ty zc (specialist_condition s) = Inr results"
  then show "specialist_scout_node env s =
            s\<lparr>specialist_results := results, updated_at := clock_now env At_scout\<rparr>"
    unfolding specialist_scout_node_def by simp
next
  assume a: "store sid = Some s \<and> \<not> specialist_search_approved s"
  have frame: "graph_stream env s = (us, err) \<Longrightarrow> us \<noteq> [] \<and>
        specialist_results (snd (last us)) = specialist_results s" for us err
  proof (cases "interpret_lab_node env s")
    case (Inl e)
    assume "graph_stream env s = (us, err)"
    then show ?thesis using Inl by (auto simp: graph_stream_failure)
  next
    case (Inr s1)
    assume g: "graph_stream env s = (us, err)"
    have na: "\<not> specialist_search_approved s1"
      using interpret_lab_node_fields(3)[OF Inr] a by simp
    have r: "specialist_results s1 = specialist_results s"
      using interpret_lab_node_fields(2)[OF Inr] .
    show ?thesis using g r
      by (auto simp: graph_stream_success[OF Inr] scout_not_approved[OF na] audit_fields
          split: if_splits)
  qed
  obtain us err where g: "graph_stream env s = (us, err)" by (cases "graph_stream env s")
  note f = frame[OF g]
  show "map_option specialist_results (snd (run_interpretation env store sid) sid)
            = Some (specialist_results s)"
    using a g f unfolding run_interpretation_def get_state_def checkpoint_def
    by (auto split: option.splits)
  fix st
  assume "fst (run_interpretation env store sid) = Inr (Completed st)"
  then show "specialist_results st = specialist_results s"
    using a g f unfolding run_interpretation_def get_state_def checkpoint_def
    by (auto split: option.splits if_splits)
qed

theorem specialist_scout_gate_witness:
  "specialist_scout_node (answering glucose_response) uploaded_zip = uploaded_zip
   \<and> specialist_scout_node (answering glucose_response) (referred\<lparr>patient_zip := None\<rparr>)
       = referred\<lparr>patient_zip := None\<rparr>
   \<and> specialist_scout_node failing_search referred = referred
   \<and> specialist_scout_node (answering glucose_response) referred
       = referred\<lparr>specialist_results := mock_search ''Endocrinologist'' ''94110'',
                  updated_at := 4\<rparr>
   \<and> map_option specialist_results
        (snd (run_interpretation (answering glucose_response)
               (set_state Map.empty ''s1'' uploaded_zip) ''s1'') ''s1'') = Some []"
proof (intro conjI)
  note ex = uploaded_zip_def uploaded_def referred_def present_def answering_def failing_search_def
    search_specialists_def sample_clock_def
  have 1: "\<not> (specialist_search_approved uploaded_zip \<and> present (specialist_type uploaded_zip)
              \<and> present (patient_zip uploaded_zip))"
    by (simp add: ex)
  from specialist_scout_gate[where s = uploaded_zip and env = "answering glucose_response",
         THEN conjunct1] 1
  show "specialist_scout_node (answering glucose_response) uploaded_zip = uploaded_zip"
    by (rule mp)
  have 2: "\<not> (specialist_search_approved (referred\<lparr>patient_zip := None\<rparr>)
              \<and> present (specialist_type (referred\<lparr>patient_zip := None\<rparr>))
              \<and> present (patient_zip (referred\<lparr>patient_zip := None\<rparr>)))"
    by (simp add: ex)
  from specialist_scout_gate[where s = "referred\<lparr>patient_zip := None\<rparr>"
         and env = "answering glucose_response", THEN conjunct1] 2
  show "specialist_scout_node (answering glucose_response) (referred\<lparr>patient_zip := None\<rparr>)
       = referred\<lparr>patient_zip := None\<rparr>"
    by (rule mp)
  have 3: "specialist_type referred = Some ''Endocrinologist'' \<and> patient_zip referred = Some ''94110''
       \<and> scout_search failing_search ''Endocrinologist'' ''94110'' (specialist_condition referred)
           = Inl (OtherError ''TimeoutError'')"
    by (simp add: ex)
  from specialist_scout_gate[where s = referred and env = failing_search
         and ty = "''Endocrinologist''" and zc = "''94110''" and e = "OtherError ''TimeoutError''",
         THEN conjunct2, THEN conjunct1] 3
  show "specialist_scout_node failing_search referred = referred"
    by (rule mp)
  have 4: "specialist_search_approved referred \<and> specialist_type referred = Some ''Endocrinologist''
       \<and> ''Endocrinologist'' \<noteq> [] \<and> patient_zip referred = Some ''94110'' \<and> ''94110'' \<noteq> []
       \<and> scout_search (answering glucose_response) ''Endocrinologist'' ''94110''
            (specialist_condition referred) = Inr (mock_search ''Endocrinologist'' ''94110'')"
    by (simp add: ex)
  from specialist_scout_gate[where s = referred and env = "answering glucose_response"
         and ty = "''Endocrinologist''" and zc = "''94110''"
         and results = "mock_search ''Endocrinologist'' ''94110''",
         THEN conjunct2, THEN conjunct2, THEN conjunct1] 4
  have "specialist_scout_node (answering glucose_response) referred
       = referred\<lparr>specialist_results := mock_search ''Endocrinologist'' ''94110'',
                  updated_at := clock_now (answering glucose_response) At_scout\<rparr>"
    by (rule mp)
  then show "specialist_scout_node (answering glucose_response) referred
       = referred\<lparr>specialist_results := mock_search ''Endocrinologist'' ''94110'',
                  updated_at := 4\<rparr>"
    by (simp add: answering_def sample_clock_def)
  have 5: "(set_state Map.empty ''s1'' uploaded_zip) ''s1'' = Some uploaded_zip
       \<and> \<not> specialist_search_approved uploaded_zip"
    by (simp add: set_state_def checkpoint_def ex)
  from specialist_scout_gate[where s = uploaded_zip and env = "answering glucose_response"
         and store = "set_state Map.empty ''s1'' uploaded_zip" and sid = "''s1''",
         THEN conjunct2, THEN conjunct2, THEN conjunct2] 5
  have "map_option specialist_results
        (snd (run_interpretation (answering glucose_response)
               (set_state Map.empty ''s1'' uploaded_zip) ''s1'') ''s1'')
        = Some (specialist_results uploaded_zip)"
    by blast
  then show "map_option specialist_results
        (snd (run_interpretation (answering glucose_response)
               (set_state Map.empty ''s1'' uploaded_zip) ''s1'') ''s1'') = Some []"
    by (simp add: uploaded_zip_def uploaded_def)
qed

text \<open>
  Claim C7. The audit stage depends on the clock only (no collaborator is called), always
  sets \<open>safety_approved\<close> and writes the fixed, non-empty disclaimer. A run of the graph that
  is not ended by an exception streams \<open>init\<close>, \<open>interpreter\<close>, the lookup stage when a
  specialist is needed, and the audit stage last. So every run that answers "completed"
  ends with \<open>safety_approved\<close> true and the disclaimer set, in the reply and in the store,
  and every run on a session not yet interpreted for which the model call succeeds
  answers "completed".
\<close>

theorem safety_audit_always_runs:
  "safety_approved (safety_audit_node env s)
   \<and> medical_disclaimer (safety_audit_node env s) = Some disclaimer
   \<and> disclaimer \<noteq> []
   \<and> (clock_now env At_audit = clock_now env' At_audit
        \<longrightarrow> safety_audit_node env s = safety_audit_node env' s)
   \<and> (graph_stream env s = (us, None)
        \<longrightarrow> (\<exists>s1. interpret_lab_node env s = Inr s1 \<and>
              (us = [(Init, s), (Interpreter, s1), (Safety_audit, safety_audit_node env s1)] \<or>
               us = [(Init, s), (Interpreter, s1),
                     (Specialist_scout, specialist_scout_node env s1),
                     (Safety_audit, safety_audit_node env (specialist_scout_node env s1))])))
   \<and> (run_interpretation env store sid = (Inr (Completed st), store')
        \<longrightarrow> safety_approved st \<and> medical_disclaimer st = Some disclaimer \<and> store' sid = Some st)
   \<and> (store sid = Some s \<and> \<not> lab_interpreted s \<and> llm_respond env (redacted_text s) = Inr content
        \<longrightarrow> (\<exists>st. fst (run_interpretation env store sid) = Inr (Completed st)))"
proof (intro conjI impI)
  show "safety_approved (safety_audit_node env s)" by (rule audit_fields)
  show "medical_disclaimer (safety_audit_node env s) = Some disclaimer" by (rule audit_fields)
  show "disclaimer \<noteq> []" by (simp add: disclaimer_def warning_sign_def)
next
  assume "clock_now env At_audit = clock_now env' At_audit"
  then show "safety_audit_node env s = safety_audit_node env' s"
    by (simp add: safety_audit_node_def)
next
  assume "graph_stream env s = (us, None)"
  then show "\<exists>s1. interpret_lab_node env s = Inr s1 \<and>
              (us = [(Init, s), (Interpreter, s1), (Safety_audit, safety_audit_node env s1)] \<or>
               us = [(Init, s), (Interpreter, s1),
                     (Specialist_scout, specialist_scout_node env s1),
                     (Safety_audit, safety_audit_node env (specialist_scout_node env s1))])"
    by (rule graph_stream_None)
next
  assume a: "run_interpretation env store sid = (Inr (Completed st), store')"
  show "safety_approved st" using run_completed_state(3)[OF a] .
  show "medical_disclaimer st = Some disclaimer" using run_completed_state(4)[OF a] .
  show "store' sid = Some st" using run_completed_state(1)[OF a] .
next
  assume a: "store sid = Some s \<and> \<not> lab_interpreted s \<and>
    llm_respond env (redacted_text s) = Inr content"
  then obtain s1 where s1: "interpret_lab_node env s = Inr s1"
    unfolding interpret_lab_node_eq by simp
  show "\<exists>st. fst (run_interpretation env store sid) = Inr (Completed st)"
    using a unfolding run_interpretation_def get_state_def
    by (simp add: graph_stream_success[OF s1])
qed

theorem safety_audit_always_runs_witness:
  "safety_audit_node (answering glucose_response) uploaded
     = safety_audit_node failing_model uploaded
   \<and> (\<exists>st. fst (run_interpretation (answering glucose_response)
                  (set_state Map.empty ''s1'' uploaded) ''s1'') = Inr (Completed st)
          \<and> safety_approved st \<and> medical_disclaimer st = Some disclaimer)"
proof
  have "clock_now (answering glucose_response) At_audit = clock_now failing_model At_audit"
    by (simp add: answering_def failing_model_def)
  with safety_audit_always_runs[where env = "answering glucose_response" and env' = failing_model
         and s = uploaded, THEN conjunct2, THEN conjunct2, THEN conjunct2, THEN conjunct1]
  show "safety_audit_node (answering glucose_response) uploaded
     = safety_audit_node failing_model uploaded"
    by (rule mp)
next
  let ?store0 = "set_state Map.empty ''s1'' uploaded"
  let ?env = "answering glucose_response"
  have h: "?store0 ''s1'' = Some uploaded \<and> \<not> lab_interpreted uploaded
      \<and> llm_respond ?env (redacted_text uploaded) = Inr glucose_response"
    by (simp add: set_state_def checkpoint_def uploaded_def answering_def)
  note c = safety_audit_always_runs[where env = ?env and store = ?store0 and sid = "''s1''"
         and s = uploaded and content = glucose_response]
  from c h obtain st where st: "fst (run_interpretation ?env ?store0 ''s1'') = Inr (Completed st)"
    by blast
  then have r: "run_interpretation ?env ?store0 ''s1''
       = (Inr (Completed st), snd (run_interpretation ?env ?store0 ''s1''))"
    by (metis prod.collapse)
  from safety_audit_always_runs[where env = ?env and store = ?store0 and sid = "''s1''"
         and st = st and store' = "snd (run_interpretation ?env ?store0 ''s1'')"] r
  have "safety_approved st \<and> medical_disclaimer st = Some disclaimer" by blast
  with st show "\<exists>st. fst (run_interpretation ?env ?store0 ''s1'') = Inr (Completed st)
          \<and> safety_approved st \<and> medical_disclaimer st = Some disclaimer"
    by blast
qed

text \<open>
  Claim C8, as amended. The interpretation stage stores the summary of the mapping that
  the extractor returned for the response. For a mapping that is not empty the summary
  gives the number of biomarkers in decimal and then either the number of biomarkers
  whose status is not "normal", or, when there is none, the sentence that all values are
  within normal ranges. For the empty mapping the summary is the response itself when it
  has at most 200 characters, and otherwise its first 200 characters followed by three
  points, 203 characters in all.
\<close>

theorem interpretation_summary_contract:
  "(interpret_lab_node env s = Inr st
      \<longrightarrow> (\<exists>content. llm_respond env (redacted_text s) = Inr content
             \<and> parse_biomarkers (json_loads env) content = Inr (biomarkers st)
             \<and> interpretation_summary st = Some (summary_text (biomarkers st) content)))
   \<and> (bm \<noteq> []
      \<longrightarrow> summary_text bm content =
            ''Successfully analyzed '' @ show_nat (length bm) @ '' biomarker(s). '' @
            (if abnormal_count bm = 0 then ''All values are within normal ranges.''
             else show_nat (abnormal_count bm) @ '' value(s) require attention.''))
   \<and> digits_val (show_nat n) = n \<and> list_all is_digit (show_nat n)
   \<and> (length content \<le> 200 \<longrightarrow> summary_text [] content = content)
   \<and> (200 < length content
      \<longrightarrow> summary_text [] content = take 200 content @ ''...''
        \<and> length (summary_text [] content) = 203)"
proof (intro conjI impI)
  assume "interpret_lab_node env s = Inr st"
  then show "\<exists>content. llm_respond env (redacted_text s) = Inr content
             \<and> parse_biomarkers (json_loads env) content = Inr (biomarkers st)
             \<and> interpretation_summary st = Some (summary_text (biomarkers st) content)"
    by (rule interpret_lab_node_fields(5))
next
  assume "bm \<noteq> []"
  then show "summary_text bm content =
            ''Successfully analyzed '' @ show_nat (length bm) @ '' biomarker(s). '' @
            (if abnormal_count bm = 0 then ''All values are within normal ranges.''
             else show_nat (abnormal_count bm) @ '' value(s) require attention.'')"
    by (simp add: summary_text_def)
next
  show "digits_val (show_nat n) = n" using show_nat_decimal by blast
  show "list_all is_digit (show_nat n)" using show_nat_decimal by blast
next
  assume "length content \<le> 200"
  then show "summary_text [] content = content" by (simp add: summary_text_def)
next
  assume a: "200 < length content"
  then show "summary_text [] content = take 200 content @ ''...''"
    by (simp add: summary_text_def)
  show "length (summary_text [] content) = 203" using a by (simp add: summary_text_def)
qed

text \<open>
  The claim as stated fails: for a response of 201 characters that holds no payload the
  extractor returns the empty mapping and the summary stored has 203 characters, the
  first 200 of the response and three points.
\<close>

theorem summary_cap_counterexample:
  "map_sum id (\<lambda>st. (biomarkers st, interpretation_summary st, map_option length (interpretation_summary st)))
     (interpret_lab_node (answering long_response) uploaded)
   = Inr ([], Some (replicate 200 (CHR ''x'') @ ''...''), Some 203)"
  by code_simp

theorem interpretation_summary_contract_witness:
  "map_sum id interpretation_summary (interpret_lab_node (answering glucose_response) uploaded)
     = Inr (Some ''Successfully analyzed 1 biomarker(s). 1 value(s) require attention.'')
   \<and> summary_text [(''Sodium'', reading ''Sodium'' ''normal'')] short_response
     = ''Successfully analyzed 1 biomarker(s). All values are within normal ranges.''
   \<and> summary_text [] short_response = short_response
   \<and> summary_text [] long_response = replicate 200 (CHR ''x'') @ ''...''
   \<and> length (summary_text [] long_response) = 203"
proof (intro conjI)
  have one: "show_nat (Suc 0) = ''1''"
    by (simp add: show_nat.simps[of "Suc 0"] digit_char_def)
  let ?env = "answering glucose_response"
  have "llm_respond ?env (redacted_text uploaded) = Inr glucose_response"
    by (simp add: answering_def)
  then obtain st where st: "interpret_lab_node ?env uploaded = Inr st"
    unfolding interpret_lab_node_eq by simp
  from interpretation_summary_contract[where env = ?env and s = uploaded and st = st,
         THEN conjunct1] st
  obtain content where c: "llm_respond ?env (redacted_text uploaded) = Inr content"
      "parse_biomarkers (json_loads ?env) content = Inr (biomarkers st)"
      "interpretation_summary st = Some (summary_text (biomarkers st) content)"
    by blast
  have content: "content = glucose_response" using c(1) by (simp add: answering_def)
  have "parse_biomarkers loads_glucose glucose_response = Inr [(''Glucose'', glucose_reading)]"
    by code_simp
  then have bm: "biomarkers st = [(''Glucose'', glucose_reading)]"
    using c(2) by (simp add: content answering_def)
  have ne: "[(''Glucose'', glucose_reading)] \<noteq> []" by simp
  have "summary_text [(''Glucose'', glucose_reading)] glucose_response =
            ''Successfully analyzed '' @ show_nat (length [(''Glucose'', glucose_reading)]) @ '' biomarker(s). '' @
            (if abnormal_count [(''Glucose'', glucose_reading)] = 0 then ''All values are within normal ranges.''
             else show_nat (abnormal_count [(''Glucose'', glucose_reading)]) @ '' value(s) require attention.'')"
    using interpretation_summary_contract[where bm = "[(''Glucose'', glucose_reading)]"
         and content = glucose_response, THEN conjunct2, THEN conjunct1] ne
    by (rule mp)
  then have "summary_text [(''Glucose'', glucose_reading)] glucose_response =
      ''Successfully analyzed 1 biomarker(s). 1 value(s) require attention.''"
    by (simp add: abnormal_count_def glucose_reading_def one)
  then show "map_sum id interpretation_summary (interpret_lab_node ?env uploaded)
     = Inr (Some ''Successfully analyzed 1 biomarker(s). 1 value(s) require attention.'')"
    using st c(3) bm content by simp
next
  have one: "show_nat (Suc 0) = ''1''"
    by (simp add: show_nat.simps[of "Suc 0"] digit_char_def)
  have ne: "[(''Sodium'', reading ''Sodium'' ''normal'')] \<noteq> []" by simp
  have "summary_text [(''Sodium'', reading ''Sodium'' ''normal'')] short_response =
            ''Successfully analyzed '' @ show_nat (length [(''Sodium'', reading ''Sodium'' ''normal'')]) @ '' biomarker(s). '' @
            (if abnormal_count [(''Sodium'', reading ''Sodium'' ''normal'')] = 0 then ''All values are within normal ranges.''
             else show_nat (abnormal_count [(''Sodium'', reading ''Sodium'' ''normal'')]) @ '' value(s) require attention.'')"
    using interpretation_summary_contract[where bm = "[(''Sodium'', reading ''Sodium'' ''normal'')]"
         and content = short_response, THEN conjunct2, THEN conjunct1] ne
    by (rule mp)
  then show "summary_text [(''Sodium'', reading ''Sodium'' ''normal'')] short_response
     = ''Successfully analyzed 1 biomarker(s). All values are within normal ranges.''"
    by (simp add: abnormal_count_def reading_def one)
next
  have "length short_response \<le> 200" by (simp add: short_response_def)
  with interpretation_summary_contract[where content = short_response,
         THEN conjunct2, THEN conjunct2, THEN conjunct2, THEN conjunct2, THEN conjunct1]
  show "summary_text [] short_response = short_response" by (rule mp)
next
  have l: "200 < length long_response" by (simp add: long_response_def)
  from interpretation_summary_contract[where content = long_response,
         THEN conjunct2, THEN conjunct2, THEN conjunct2, THEN conjunct2, THEN conjunct2] l
  have r: "summary_text [] long_response = take 200 long_response @ ''...''
        \<and> length (summary_text [] long_response) = 203"
    by (rule mp)
  have t: "take 200 long_response = replicate 200 (CHR ''x'')"
    by (simp add: long_response_def)
  show "summary_text [] long_response = replicate 200 (CHR ''x'') @ ''...''"
    using r t by simp
  show "length (summary_text [] long_response) = 203" using r by blast
qed

end
